theory Spec2Isabelle
  imports Main "HOL-Library.Word" "HOL-Library.Multiset"
begin

section \<open>Strings and byte vectors\<close>

text \<open>
  \<^verbatim>\<open>std::string\<close> is a sequence of bytes and is modelled by \<^typ>\<open>string\<close>;
  \<^verbatim>\<open>android::String16\<close> is a sequence of 16-bit code units; \<^verbatim>\<open>IPAddressNumber\<close>
  is \<^verbatim>\<open>std::vector<unsigned char>\<close> (declared in net_util.h).
\<close>

type_synonym String16 = "16 word list"
type_synonym IPAddressNumber = "8 word list"

text \<open>
  \<^verbatim>\<open>std::string::c_str()\<close> handed to a C routine: the routine sees the bytes in front
  of the first NUL only.
\<close>

definition c_str :: "string \<Rightarrow> string" where
  "c_str s = takeWhile (\<lambda>c. c \<noteq> CHR 0x00) s"

subsection \<open>DoIsStringASCII, IsStringASCII\<close>

fun DoIsStringASCII :: "String16 \<Rightarrow> bool" where
  "DoIsStringASCII [] = True"
| "DoIsStringASCII (c # cs) = (if c > 0x7F then False else DoIsStringASCII cs)"

definition IsStringASCII :: "String16 \<Rightarrow> bool" where
  "IsStringASCII str = DoIsStringASCII str"

subsection \<open>RemoveCharsT, RemoveChars\<close>

text \<open>
  \<^verbatim>\<open>find_first_of(chars, pos)\<close>: the least index from \<open>pos\<close> on that holds one of
  \<open>chars\<close>; \<open>None\<close> is \<^verbatim>\<open>npos\<close>.
\<close>

primrec first_of :: "string \<Rightarrow> string \<Rightarrow> nat option" where
  "first_of [] chars = None"
| "first_of (c # cs) chars =
     (if c \<in> set chars then Some 0 else map_option Suc (first_of cs chars))"

definition find_first_of :: "string \<Rightarrow> string \<Rightarrow> nat \<Rightarrow> nat option" where
  "find_first_of s chars pos = map_option (\<lambda>i. pos + i) (first_of (drop pos s) chars)"

text \<open>\<^verbatim>\<open>output->replace(found, 1, STR())\<close> erases the character at \<open>found\<close>.\<close>

definition erase1 :: "string \<Rightarrow> nat \<Rightarrow> string" where
  "erase1 s found = take found s @ drop (Suc found) s"

text \<open>The \<^verbatim>\<open>while (found != npos)\<close> loop; the state is \<open>(removed, out, found)\<close> (\<open>out\<close> is \<^verbatim>\<open>*out\<close>).\<close>

function RemoveChars_while :: "string \<Rightarrow> bool \<Rightarrow> string \<Rightarrow> nat option \<Rightarrow> bool \<times> string" where
  "RemoveChars_while remove_chars removed out None = (removed, out)"
| "RemoveChars_while remove_chars removed out (Some found) =
     RemoveChars_while remove_chars True (erase1 out found)
       (find_first_of (erase1 out found) remove_chars found)"
  by pat_completeness auto
termination
proof (relation "measure (\<lambda>(rc, removed, out, found).
          2 * length out + (case found of None \<Rightarrow> 0 | Some _ \<Rightarrow> 1))", goal_cases)
  case 1
  show ?case by simp
next
  case (2 remove_chars removed out found)
  show ?case
  proof (cases "found < length out")
    case True
    then have "length (erase1 out found) < length out"
      by (simp add: erase1_def)
    then show ?thesis
      by (simp split: option.split)
  next
    case False
    then have "erase1 out found = out"
      by (simp add: erase1_def)
    moreover from False have "find_first_of out remove_chars found = None"
      by (simp add: find_first_of_def)
    ultimately show ?thesis by simp
  qed
qed

definition RemoveCharsT :: "string \<Rightarrow> string \<Rightarrow> bool \<times> string" where
  "RemoveCharsT input remove_chars =
     RemoveChars_while remove_chars False input (find_first_of input remove_chars 0)"

definition RemoveChars :: "string \<Rightarrow> string \<Rightarrow> bool \<times> string" where
  "RemoveChars input remove_chars = RemoveCharsT input remove_chars"

text \<open>The literal \<^verbatim>\<open>" \t"\<close>.\<close>

definition space_tab :: string where
  "space_tab = [CHR '' '', CHR 0x09]"

subsection \<open>strtok\<close>

text \<open>
  One call of \<^verbatim>\<open>strtok\<close> on the C string \<open>s\<close> that is left to scan: leading
  delimiters are skipped; if nothing is left the result is \<^verbatim>\<open>NULL\<close> (\<open>None\<close>);
  otherwise the token runs up to the next delimiter, and scanning resumes behind that
  delimiter (or stays at the end of the string).
\<close>

definition strtok :: "string \<Rightarrow> string \<Rightarrow> (string \<times> string) option" where
  "strtok s delim =
     (let s1 = dropWhile (\<lambda>c. c \<in> set delim) s
      in if s1 = [] then None
         else Some (takeWhile (\<lambda>c. c \<notin> set delim) s1,
                    drop 1 (dropWhile (\<lambda>c. c \<notin> set delim) s1)))"

subsection \<open>IPAddress and its ordering\<close>

record IPAddress =
  string_value :: string
  ip_address_number :: IPAddressNumber

text \<open>
  \<^verbatim>\<open>memcmp\<close> over the first \<open>n\<close> bytes, bytes compared as unsigned; only the sign
  of the result is specified. The second equation is \<open>n = 0\<close>; it also closes the
  function on vectors shorter than \<open>n\<close>, which \<^verbatim>\<open>operator<\<close> never passes (both
  vectors have \<open>n\<close> bytes there).
\<close>

fun memcmp :: "IPAddressNumber \<Rightarrow> IPAddressNumber \<Rightarrow> nat \<Rightarrow> int" where
  "memcmp (a # as) (b # bs) (Suc n) =
     (if a < b then - 1 else if b < a then 1 else memcmp as bs n)"
| "memcmp _ _ _ = 0"

definition IPAddress_less :: "IPAddress \<Rightarrow> IPAddress \<Rightarrow> bool" where
  "IPAddress_less lhs rhs =
     (let ip1 = ip_address_number lhs; ip2 = ip_address_number rhs
      in if length ip1 \<noteq> length ip2 then length ip1 > length ip2
         else memcmp ip1 ip2 (length ip1) < 0)"

subsection \<open>std::stable\_sort\<close>

text \<open>
  \<^verbatim>\<open>std::stable_sort\<close> is a library routine: it sorts by \<^verbatim>\<open>operator<\<close> and keeps
  equivalent elements in their original order. It is modelled by a stable insertion
  sort; the lemmas below show that the model is sorted, a permutation and stable.
\<close>

fun stable_insert :: "('a \<Rightarrow> 'a \<Rightarrow> bool) \<Rightarrow> 'a \<Rightarrow> 'a list \<Rightarrow> 'a list" where
  "stable_insert lt x [] = [x]"
| "stable_insert lt x (y # ys) =
     (if lt y x then y # stable_insert lt x ys else x # y # ys)"

definition stable_sort :: "('a \<Rightarrow> 'a \<Rightarrow> bool) \<Rightarrow> 'a list \<Rightarrow> 'a list" where
  "stable_sort lt xs = foldr (stable_insert lt) xs []"

subsection \<open>SortIpAddressList\<close>

text \<open>
  The \<^verbatim>\<open>while (tok_list != NULL)\<close> loop. The second argument is \<^verbatim>\<open>tok_list\<close>
  together with the rest of the buffer that \<^verbatim>\<open>strtok\<close> keeps; \<open>None\<close> as a
  result is the early \<^verbatim>\<open>return false\<close>. \<^verbatim>\<open>ParseIPLiteralToNumber\<close> is defined in
  net_util.cc and is a parameter here: \<open>None\<close> is its \<^verbatim>\<open>false\<close>.
\<close>

function SortIpAddressList_while ::
  "(string \<Rightarrow> IPAddressNumber option) \<Rightarrow> (string \<times> string) option \<Rightarrow> IPAddress list
     \<Rightarrow> IPAddress list option" where
  "SortIpAddressList_while ParseIPLiteralToNumber None ip_vector = Some ip_vector"
| "SortIpAddressList_while ParseIPLiteralToNumber (Some (tok_list, rest)) ip_vector =
     (case ParseIPLiteralToNumber tok_list of
        None \<Rightarrow> None
      | Some ip_num \<Rightarrow>
          SortIpAddressList_while ParseIPLiteralToNumber (strtok rest '';'')
            (ip_vector @ [\<lparr>string_value = tok_list, ip_address_number = ip_num\<rparr>]))"
  by pat_completeness auto
termination
proof (relation "measure (\<lambda>(p, tok, v). case tok of None \<Rightarrow> 0 | Some (t, rest) \<Rightarrow> Suc (length rest))",
    goal_cases)
  case 1
  show ?case by simp
next
  case (2 ParseIPLiteralToNumber tok_list rest ip_vector ip_num)
  have "length rest' < length rest" if "strtok rest '';'' = Some (t, rest')" for t rest'
  proof -
    let ?s1 = "dropWhile (\<lambda>c. c \<in> set '';'') rest"
    from that have ne: "?s1 \<noteq> []"
      and rest': "rest' = drop 1 (dropWhile (\<lambda>c. c \<notin> set '';'') ?s1)"
      by (auto simp: strtok_def Let_def split: if_splits)
    from ne obtain c cs where s1: "?s1 = c # cs"
      by (cases ?s1) auto
    from ne have "\<not> hd ?s1 \<in> set '';''"
      by (rule hd_dropWhile)
    with s1 have "dropWhile (\<lambda>c. c \<notin> set '';'') ?s1 = dropWhile (\<lambda>c. c \<notin> set '';'') cs"
      by simp
    then have "length rest' \<le> length cs"
      using length_dropWhile_le [of "\<lambda>c. c \<notin> set '';''" cs] by (simp add: rest')
    also have "length cs < length ?s1"
      by (subst s1) simp
    also have "length ?s1 \<le> length rest"
      by (rule length_dropWhile_le)
    finally show ?thesis .
  qed
  then show ?case
    by (auto split: option.split)
qed

text \<open>The final \<^verbatim>\<open>for\<close> loop; \<open>i\<close> is the loop index, \<open>acc\<close> the string built so far.\<close>

fun join_addresses :: "string \<Rightarrow> nat \<Rightarrow> IPAddress list \<Rightarrow> string" where
  "join_addresses acc i [] = acc"
| "join_addresses acc i (a # as) =
     join_addresses ((if i > 0 then acc @ '';'' else acc) @ string_value a) (Suc i) as"

text \<open>
  The result pairs the returned \<^verbatim>\<open>bool\<close> with the final content of
  \<^verbatim>\<open>*sorted_ip_address_list\<close>, which is cleared on entry.
\<close>

definition SortIpAddressList ::
  "(string \<Rightarrow> IPAddressNumber option) \<Rightarrow> string \<Rightarrow> bool \<times> string" where
  "SortIpAddressList ParseIPLiteralToNumber ip_address_list =
     (let cleaned_ip_address_list = snd (RemoveChars ip_address_list space_tab)
      in if cleaned_ip_address_list = [] then (False, [])
         else
           (case SortIpAddressList_while ParseIPLiteralToNumber
                   (strtok (c_str cleaned_ip_address_list) '';'') [] of
              None \<Rightarrow> (False, [])
            | Some ip_vector \<Rightarrow>
                if ip_vector = [] then (False, [])
                else
                  (let sorted = (if length ip_vector > 1
                                 then stable_sort IPAddress_less ip_vector else ip_vector)
                   in (True, join_addresses [] 0 sorted))))"

subsection \<open>IsInNetEx\<close>

text \<open>
  Modelled from the spec: \<^verbatim>\<open>IPNumberMatchesPrefix\<close> is defined in net_util.cc, which
  is not among the sources. The spec has it return true iff the top \<open>bitlength\<close> bits
  of the address match the prefix network; the bits of a byte vector are read from the
  most significant bit of the first byte on.
\<close>

definition bits_of_byte :: "8 word \<Rightarrow> bool list" where
  "bits_of_byte b = map (bit b) [7, 6, 5, 4, 3, 2, 1, 0]"

definition bits_of :: "IPAddressNumber \<Rightarrow> bool list" where
  "bits_of ip = concat (map bits_of_byte ip)"

definition IPNumberMatchesPrefix :: "IPAddressNumber \<Rightarrow> IPAddressNumber \<Rightarrow> nat \<Rightarrow> bool" where
  "IPNumberMatchesPrefix ip_number ip_prefix prefix_length_in_bits =
     (take prefix_length_in_bits (bits_of ip_number) =
      take prefix_length_in_bits (bits_of ip_prefix))"

text \<open>
  \<^verbatim>\<open>ParseIPLiteralToNumber\<close> and \<^verbatim>\<open>ParseCIDRBlock\<close> (net_util.cc) are parameters;
  \<open>None\<close> is their \<^verbatim>\<open>false\<close>.
\<close>

definition IsInNetEx ::
  "(string \<Rightarrow> IPAddressNumber option) \<Rightarrow> (string \<Rightarrow> (IPAddressNumber \<times> nat) option)
     \<Rightarrow> string \<Rightarrow> string \<Rightarrow> bool" where
  "IsInNetEx ParseIPLiteralToNumber ParseCIDRBlock ip_address ip_prefix =
     (if fst (RemoveChars ip_address space_tab) then False
      else
        (case ParseIPLiteralToNumber ip_address of
           None \<Rightarrow> False
         | Some address \<Rightarrow>
             (case ParseCIDRBlock ip_prefix of
                None \<Rightarrow> False
              | Some (prefix, prefix_length_in_bits) \<Rightarrow>
                  if length address \<noteq> length prefix then False
                  else IPNumberMatchesPrefix address prefix prefix_length_in_bits)))"

subsection \<open>The spec's reading of the token list\<close>

text \<open>
  The spec (4.3, steps 3 to 6) in its own words, for comparison with the code:
  the stripped input is split on \<open>;\<close>, the tokens are the non-empty pieces, each is
  parsed (one failure fails the whole call), and the textual forms are joined by \<open>;\<close>.
\<close>

fun split_on :: "char \<Rightarrow> string \<Rightarrow> string list" where
  "split_on d [] = [[]]"
| "split_on d (c # cs) =
     (if c = d then [] # split_on d cs
      else (case split_on d cs of [] \<Rightarrow> [[c]] | t # ts \<Rightarrow> (c # t) # ts))"

definition tokens :: "string \<Rightarrow> string list" where
  "tokens s = filter (\<lambda>t. t \<noteq> []) (split_on CHR '';'' s)"

fun parse_tokens :: "(string \<Rightarrow> IPAddressNumber option) \<Rightarrow> string list \<Rightarrow> IPAddress list option" where
  "parse_tokens parse [] = Some []"
| "parse_tokens parse (t # ts) =
     (case parse t of
        None \<Rightarrow> None
      | Some n \<Rightarrow> map_option ((#) \<lparr>string_value = t, ip_address_number = n\<rparr>) (parse_tokens parse ts))"

fun join_semicolon :: "string list \<Rightarrow> string" where
  "join_semicolon [] = []"
| "join_semicolon [t] = t"
| "join_semicolon (t # ts) = t @ '';'' @ join_semicolon ts"

definition strip_space_tab :: "string \<Rightarrow> string" where
  "strip_space_tab s = filter (\<lambda>c. c \<noteq> CHR '' '' \<and> c \<noteq> CHR 0x09) s"

subsection \<open>Sample values of the parsers\<close>

text \<open>
  Modelled from the spec: \<^verbatim>\<open>ParseIPLiteralToNumber\<close> and \<^verbatim>\<open>ParseCIDRBlock\<close> are
  defined in net_util.cc, which is not among the sources. The two tables give their
  values on the literals of the spec's examples (section 8) and on a few more dotted
  quads, and reject every other string; they instantiate the parser parameters at
  concrete inputs.
\<close>

definition sample_ParseIPLiteralToNumber :: "string \<Rightarrow> IPAddressNumber option" where
  "sample_ParseIPLiteralToNumber s =
     (if s = ''1.2.3.4'' then Some [1, 2, 3, 4]
      else if s = ''5.6.7.8'' then Some [5, 6, 7, 8]
      else if s = ''9.9.9.9'' then Some [9, 9, 9, 9]
      else if s = ''10.1.2.3'' then Some [10, 1, 2, 3]
      else if s = ''40.1.1.1'' then Some [40, 1, 1, 1]
      else if s = ''::1'' then Some [0, 0, 0, 0, 0, 0, 0, 0, 0, 0, 0, 0, 0, 0, 0, 1]
      else None)"

definition sample_ParseCIDRBlock :: "string \<Rightarrow> (IPAddressNumber \<times> nat) option" where
  "sample_ParseCIDRBlock s =
     (if s = ''10.1.0.0/16'' then Some ([10, 1, 0, 0], 16)
      else if s = ''::/16'' then Some ([0, 0, 0, 0, 0, 0, 0, 0, 0, 0, 0, 0, 0, 0, 0, 0], 16)
      else None)"

section \<open>The script host\<close>

subsection \<open>The engine as the resolver sees it\<close>

text \<open>
  V8 is an external library. A JavaScript value is known to the resolver only through
  \<^verbatim>\<open>IsString()\<close>, \<^verbatim>\<open>IsFunction()\<close> and the code units of a string.
\<close>

datatype js_value =
  JSUndefined | JSNull | JSBoolean bool | JSNumber int | JSString String16
  | JSFunction nat | JSObject nat

fun IsString :: "js_value \<Rightarrow> bool" where
  "IsString (JSString s) = True"
| "IsString _ = False"

fun IsFunction :: "js_value \<Rightarrow> bool" where
  "IsFunction (JSFunction f) = True"
| "IsFunction _ = False"

text \<open>
  What a \<^verbatim>\<open>v8::TryCatch\<close> has caught: \<^verbatim>\<open>Message()\<close>, which may be an empty
  handle (\<open>None\<close>), otherwise the text of \<^verbatim>\<open>Message()->Get()\<close>.
\<close>

datatype v8_exception = Exception (message: "String16 option")

text \<open>
  The operations of V8 that the resolver calls. \<open>'g\<close> is the state of one
  \<^verbatim>\<open>v8::Context\<close>: its global object and all that scripts can reach from it.
  \<^item> \<open>Context_New\<close>: the scope created from the global template that carries the bindings;
  \<^item> \<open>Script_Compile\<close>: \<open>None\<close> when a script was produced, otherwise the exception
    (and the returned handle is empty);
  \<^item> \<open>Script_Run\<close>: the scope after the run and the exception it threw, if any;
  \<^item> \<open>Global_Get\<close>: \<^verbatim>\<open>context->Global()->Get(name)\<close>;
  \<^item> \<open>Function_Call\<close>: the scope after the call and the exception or the returned value;
  \<^item> \<open>NewFromUtf8\<close>: the engine string decoded from UTF-8 bytes;
  \<^item> \<open>Value_ToString\<close>: \<^verbatim>\<open>object->ToString()\<close>, \<open>None\<close> when it throws.
\<close>

record 'g V8 =
  Context_New :: "'g"
  Script_Compile :: "String16 \<Rightarrow> 'g \<Rightarrow> v8_exception option"
  Script_Run :: "String16 \<Rightarrow> 'g \<Rightarrow> 'g \<times> v8_exception option"
  Global_Get :: "'g \<Rightarrow> String16 \<Rightarrow> js_value"
  Function_Call :: "nat \<Rightarrow> js_value list \<Rightarrow> 'g \<Rightarrow> 'g \<times> (v8_exception + js_value)"
  NewFromUtf8 :: "string \<Rightarrow> String16"
  Value_ToString :: "js_value \<Rightarrow> String16 option"

text \<open>
  The return codes \<^verbatim>\<open>OK\<close>, \<^verbatim>\<open>ERR_FAILED\<close> and \<^verbatim>\<open>ERR_PAC_SCRIPT_FAILED\<close> are
  integer macros of proxy_resolver_v8.h, which is not among the sources; the code only
  compares them, so they are three distinct constants here.
\<close>

datatype status = OK | ERR_FAILED | ERR_PAC_SCRIPT_FAILED

text \<open>
  A dereference of a null pointer or of an empty handle has no defined result in C++;
  the model returns it as a fault.
\<close>

datatype fault = NullPointerDereference | EmptyHandleDereference

text \<open>
  What the host does to the outside: the texts given to
  \<^verbatim>\<open>error_listener_->ErrorMessage\<close> and \<^verbatim>\<open>AlertMessage\<close>, oldest first, and the
  engine operations it performed, oldest first.
\<close>

datatype v8_event =
  Locker | NewIsolate | NewContext | Compile string | Run string | GetGlobal | Call
  | LowMemoryNotification

record host =
  error_messages :: "String16 list"
  alert_messages :: "String16 list"
  v8_events :: "v8_event list"

definition log_event :: "v8_event \<Rightarrow> host \<Rightarrow> host" where
  "log_event e h = h\<lparr>v8_events := v8_events h @ [e]\<rparr>"

definition ErrorMessage :: "String16 \<Rightarrow> host \<Rightarrow> host" where
  "ErrorMessage m h = h\<lparr>error_messages := error_messages h @ [m]\<rparr>"

definition AlertMessage :: "String16 \<Rightarrow> host \<Rightarrow> host" where
  "AlertMessage m h = h\<lparr>alert_messages := alert_messages h @ [m]\<rparr>"

subsection \<open>String marshaling\<close>

text \<open>\<^verbatim>\<open>android::String16("...")\<close> of an ASCII literal: one code unit per character.\<close>

definition String16_literal :: "string \<Rightarrow> String16" where
  "String16_literal ascii = map (\<lambda>c. of_nat (of_char c)) ascii"

definition kMaxStringBytesForCopy :: nat where
  "kMaxStringBytesForCopy = 256"

definition kPacResourceName :: string where
  "kPacResourceName = ''proxy-pac-script.js''"

definition kPacUtilityResourceName :: string where
  "kPacUtilityResourceName = ''proxy-pac-utility-script.js''"

text \<open>
  \<^verbatim>\<open>V8StringToUTF16\<close> copies the \<^verbatim>\<open>Length()\<close> code units of the engine string,
  \<^verbatim>\<open>UTF16StringToV8String\<close> copies them back (\<^verbatim>\<open>NewFromTwoByte\<close>).
\<close>

definition V8StringToUTF16 :: "String16 \<Rightarrow> String16" where
  "V8StringToUTF16 s = s"

definition UTF16StringToV8String :: "String16 \<Rightarrow> String16" where
  "UTF16StringToV8String s = s"

text \<open>
  \<^verbatim>\<open>UTF16ToASCII\<close>: \<^verbatim>\<open>android::String8(str)\<close> is the UTF-8 encoding, which on
  code units up to 0x7F (the only ones \<^verbatim>\<open>GetHostnameArgument\<close> passes) is the byte of
  the same value; \<^verbatim>\<open>std::string(rstr.string())\<close> then reads it as a C string.
\<close>

definition UTF16ToASCII :: "String16 \<Rightarrow> string" where
  "UTF16ToASCII str = c_str (map (\<lambda>c. char_of (unat c)) str)"

definition ASCIIStringToV8String :: "'g V8 \<Rightarrow> string \<Rightarrow> String16" where
  "ASCIIStringToV8String v8 s = NewFromUtf8 v8 s"

text \<open>
  \<^verbatim>\<open>ASCIILiteralToV8String\<close>: short literals are copied through
  \<^verbatim>\<open>NewFromUtf8\<close>, longer ones are wrapped as an external one-byte string.
\<close>

definition ASCIILiteralToV8String :: "'g V8 \<Rightarrow> string \<Rightarrow> String16" where
  "ASCIILiteralToV8String v8 ascii =
     (if length ascii \<le> kMaxStringBytesForCopy then NewFromUtf8 v8 ascii
      else String16_literal ascii)"

subsection \<open>ProxyResolverV8::Context\<close>

text \<open>
  The constructor stores three pointers; the state of a \<^verbatim>\<open>Context\<close> that matters is
  what \<^verbatim>\<open>v8_context_\<close> refers to, set by \<^verbatim>\<open>InitV8\<close> (field \<open>v8_context\<close>).
\<close>

record 'g Context =
  v8_context :: "'g"

definition GetFindProxyForURL :: "'g V8 \<Rightarrow> 'g Context \<Rightarrow> host \<Rightarrow> bool \<times> js_value \<times> host" where
  "GetFindProxyForURL v8 ctx h =
     (let function = Global_Get v8 (v8_context ctx) (ASCIILiteralToV8String v8 ''FindProxyForURL'')
      in (IsFunction function, function, log_event GetGlobal h))"

definition HandleError :: "v8_exception \<Rightarrow> host \<Rightarrow> host" where
  "HandleError e h =
     (case message e of None \<Rightarrow> h | Some m \<Rightarrow> ErrorMessage (V8StringToUTF16 m) h)"

definition RunScript :: "'g V8 \<Rightarrow> String16 \<Rightarrow> string \<Rightarrow> 'g \<Rightarrow> host \<Rightarrow> status \<times> 'g \<times> host" where
  "RunScript v8 script script_name g h =
     (case Script_Compile v8 script g of
        Some e \<Rightarrow> (ERR_PAC_SCRIPT_FAILED, g, HandleError e (log_event (Compile script_name) h))
      | None \<Rightarrow>
          (case Script_Run v8 script g of
             (g', Some e) \<Rightarrow>
               (ERR_PAC_SCRIPT_FAILED, g',
                HandleError e (log_event (Run script_name) (log_event (Compile script_name) h)))
           | (g', None) \<Rightarrow>
               (OK, g', log_event (Run script_name) (log_event (Compile script_name) h))))"

text \<open>
  \<open>utility\<close> is the literal \<^verbatim>\<open>PROXY_RESOLVER_SCRIPT PROXY_RESOLVER_SCRIPT_EX\<close> of
  proxy_resolver_script.h, which is not among the sources.
\<close>

definition InitV8 :: "'g V8 \<Rightarrow> string \<Rightarrow> String16 \<Rightarrow> host \<Rightarrow> status \<times> 'g Context \<times> host" where
  "InitV8 v8 utility pac_script h =
     (let h0 = log_event NewContext (log_event Locker h);
          g0 = Context_New v8;
          (rv, g1, h1) = RunScript v8 (ASCIILiteralToV8String v8 utility) kPacUtilityResourceName g0 h0
      in if rv \<noteq> OK then (rv, \<lparr>v8_context = g1\<rparr>, h1)
         else
           (let (rv, g2, h2) = RunScript v8 (UTF16StringToV8String pac_script) kPacResourceName g1 h1
            in if rv \<noteq> OK then (rv, \<lparr>v8_context = g2\<rparr>, h2)
               else
                 (let (is_function, function, h3) = GetFindProxyForURL v8 \<lparr>v8_context = g2\<rparr> h2
                  in if \<not> is_function then (ERR_PAC_SCRIPT_FAILED, \<lparr>v8_context = g2\<rparr>, h3)
                     else (OK, \<lparr>v8_context = g2\<rparr>, h3))))"

text \<open>
  \<^verbatim>\<open>ResolveProxy\<close> returns the code, the context after the call, the content of
  \<^verbatim>\<open>*results\<close> and the host effects. \<^verbatim>\<open>try_catch.Message()->Get()\<close> is not guarded
  by \<^verbatim>\<open>IsEmpty()\<close> here.
\<close>

definition ResolveProxy ::
  "'g V8 \<Rightarrow> 'g Context \<Rightarrow> String16 \<Rightarrow> String16 \<Rightarrow> String16 \<Rightarrow> host
     \<Rightarrow> fault + (status \<times> 'g Context \<times> String16 \<times> host)" where
  "ResolveProxy v8 ctx url host_name results h =
     (let (is_function, function, h1) = GetFindProxyForURL v8 ctx (log_event Locker h)
      in if \<not> is_function
         then Inr (ERR_PAC_SCRIPT_FAILED, ctx, results,
                   ErrorMessage (String16_literal ''FindProxyForURL() is undefined'') h1)
         else
           (let argv = [JSString (UTF16StringToV8String url),
                        JSString (UTF16StringToV8String host_name)];
                (g', ret) = Function_Call v8 (case function of JSFunction f \<Rightarrow> f | _ \<Rightarrow> 0) argv
                              (v8_context ctx);
                ctx' = ctx\<lparr>v8_context := g'\<rparr>;
                h2 = log_event Call h1
            in case ret of
                 Inl e \<Rightarrow>
                   (case message e of
                      None \<Rightarrow> Inl EmptyHandleDereference
                    | Some m \<Rightarrow> Inr (ERR_PAC_SCRIPT_FAILED, ctx', results,
                                     ErrorMessage (V8StringToUTF16 m) h2))
               | Inr ret \<Rightarrow>
                   (case ret of
                      JSString s \<Rightarrow>
                        (let results' = V8StringToUTF16 s
                         in if \<not> IsStringASCII results'
                            then Inr (ERR_PAC_SCRIPT_FAILED, ctx', results',
                                      ErrorMessage
                                        (String16_literal ''FindProxyForURL() returned a non-ASCII string'')
                                        h2)
                            else Inr (OK, ctx', results', h2))
                    | _ \<Rightarrow>
                        Inr (ERR_PAC_SCRIPT_FAILED, ctx', results,
                             ErrorMessage
                               (String16_literal ''FindProxyForURL() did not return a string.'') h2))))"

definition Context_PurgeMemory :: "'g Context \<Rightarrow> host \<Rightarrow> host" where
  "Context_PurgeMemory ctx h = log_event LowMemoryNotification (log_event Locker h)"

text \<open>\<^verbatim>\<open>~Context\<close> takes the lock and resets the two persistent handles.\<close>

definition Context_destroy :: "'g Context \<Rightarrow> host \<Rightarrow> host" where
  "Context_destroy ctx h = log_event Locker h"

subsection \<open>ProxyResolverV8\<close>

text \<open>
  \<open>context_ptr\<close> is the member \<^verbatim>\<open>context_\<close> (\<open>None\<close> is \<^verbatim>\<open>NULL\<close>);
  \<open>host_state\<close> is what the listener and the engine have seen so far.
\<close>

record 'g ProxyResolverV8 =
  context_ptr :: "'g Context option"
  host_state :: host

definition GetProxyForURL ::
  "'g V8 \<Rightarrow> 'g ProxyResolverV8 \<Rightarrow> String16 \<Rightarrow> String16 \<Rightarrow> String16
     \<Rightarrow> fault + (status \<times> 'g ProxyResolverV8 \<times> String16)" where
  "GetProxyForURL v8 r spec host_name results =
     (case context_ptr r of
        None \<Rightarrow> Inr (ERR_FAILED, r, results)
      | Some ctx \<Rightarrow>
          (case ResolveProxy v8 ctx spec host_name results (host_state r) of
             Inl f \<Rightarrow> Inl f
           | Inr (rv, ctx', results', h') \<Rightarrow>
               Inr (rv, r\<lparr>context_ptr := Some ctx', host_state := h'\<rparr>, results')))"

definition PurgeMemory :: "'g ProxyResolverV8 \<Rightarrow> fault + 'g ProxyResolverV8" where
  "PurgeMemory r =
     (case context_ptr r of
        None \<Rightarrow> Inl NullPointerDereference
      | Some ctx \<Rightarrow> Inr (r\<lparr>host_state := Context_PurgeMemory ctx (host_state r)\<rparr>))"

definition SetPacScript ::
  "'g V8 \<Rightarrow> string \<Rightarrow> 'g ProxyResolverV8 \<Rightarrow> String16 \<Rightarrow> status \<times> 'g ProxyResolverV8" where
  "SetPacScript v8 utility r script_data =
     (let h1 = (case context_ptr r of
                  None \<Rightarrow> host_state r
                | Some ctx \<Rightarrow> Context_destroy ctx (host_state r));
          r1 = r\<lparr>context_ptr := None, host_state := h1\<rparr>
      in if length script_data = 0 then (ERR_PAC_SCRIPT_FAILED, r1)
         else
           (let (rv, ctx, h2) = InitV8 v8 utility script_data (log_event NewIsolate h1)
            in (rv, r1\<lparr>context_ptr := (if rv \<noteq> OK then None else Some ctx),
                      host_state := h2\<rparr>)))"

subsection \<open>Binding callbacks\<close>

text \<open>
  An argument of a callback is a handle, which may be empty (\<open>None\<close>). A callback
  leaves the return value unset, sets it, or returns with an exception pending in the
  engine.
\<close>

type_synonym handle = "js_value option"

datatype callback_outcome = ReturnValueUnset | ReturnValue js_value | ExceptionPending

text \<open>The network collaborator; each lookup gives the success flag and the text written.\<close>

record ProxyResolverJSBindings =
  MyIpAddress :: "bool \<times> string"
  MyIpAddressEx :: "bool \<times> string"
  DnsResolve :: "string \<Rightarrow> bool \<times> string"
  DnsResolveEx :: "string \<Rightarrow> bool \<times> string"

text \<open>
  \<^verbatim>\<open>V8ObjectToUTF16String\<close>: the string on success, and whether \<^verbatim>\<open>toString()\<close>
  left an exception pending.
\<close>

definition V8ObjectToUTF16String :: "'g V8 \<Rightarrow> handle \<Rightarrow> String16 option \<times> bool" where
  "V8ObjectToUTF16String v8 object =
     (case object of
        None \<Rightarrow> (None, False)
      | Some v \<Rightarrow>
          (case Value_ToString v8 v of
             None \<Rightarrow> (None, True)
           | Some str_object \<Rightarrow> (Some (V8StringToUTF16 str_object), False)))"

definition GetHostnameArgument :: "handle list \<Rightarrow> string option" where
  "GetHostnameArgument args =
     (case args of
        [] \<Rightarrow> None
      | arg0 # _ \<Rightarrow>
          (case arg0 of
             None \<Rightarrow> None
           | Some v \<Rightarrow>
               (case v of
                  JSString s \<Rightarrow>
                    (let hostname_utf16 = V8StringToUTF16 s
                     in if IsStringASCII hostname_utf16 then Some (UTF16ToASCII hostname_utf16)
                        else None)
                | _ \<Rightarrow> None)))"

definition AlertCallback :: "'g V8 \<Rightarrow> handle list \<Rightarrow> host \<Rightarrow> callback_outcome \<times> host" where
  "AlertCallback v8 args h =
     (case args of
        [] \<Rightarrow> (ReturnValueUnset, AlertMessage (String16_literal ''undefined'') h)
      | arg0 # _ \<Rightarrow>
          (case V8ObjectToUTF16String v8 arg0 of
             (None, pending) \<Rightarrow> (if pending then ExceptionPending else ReturnValueUnset, h)
           | (Some msg, _) \<Rightarrow> (ReturnValueUnset, AlertMessage msg h)))"

definition DnsResolveCallback ::
  "'g V8 \<Rightarrow> ProxyResolverJSBindings \<Rightarrow> handle list \<Rightarrow> callback_outcome" where
  "DnsResolveCallback v8 js_bindings args =
     (case GetHostnameArgument args of
        None \<Rightarrow> ReturnValueUnset
      | Some hostname \<Rightarrow>
          (let (success, ip_address) = DnsResolve js_bindings hostname
           in if success then ReturnValue (JSString (ASCIIStringToV8String v8 ip_address))
              else ReturnValue JSNull))"

definition DnsResolveExCallback ::
  "'g V8 \<Rightarrow> ProxyResolverJSBindings \<Rightarrow> handle list \<Rightarrow> callback_outcome" where
  "DnsResolveExCallback v8 js_bindings args =
     (case GetHostnameArgument args of
        None \<Rightarrow> ReturnValue JSNull
      | Some hostname \<Rightarrow>
          (let (success, ip_address_list) = DnsResolveEx js_bindings hostname;
               ip_address_list = (if \<not> success then [] else ip_address_list)
           in ReturnValue (JSString (ASCIIStringToV8String v8 ip_address_list))))"

subsection \<open>Words of the spec about loading a script\<close>

text \<open>
  A script "fails to parse or run" when compiling it or running it throws; the entry
  function "exists and is callable" when the global \<^verbatim>\<open>FindProxyForURL\<close> is a
  function.
\<close>

definition script_fails :: "'g V8 \<Rightarrow> String16 \<Rightarrow> 'g \<Rightarrow> bool" where
  "script_fails v8 script g \<longleftrightarrow>
     Script_Compile v8 script g \<noteq> None \<or> snd (Script_Run v8 script g) \<noteq> None"

definition entry_callable :: "'g V8 \<Rightarrow> 'g \<Rightarrow> bool" where
  "entry_callable v8 g \<longleftrightarrow>
     IsFunction (Global_Get v8 g (ASCIILiteralToV8String v8 ''FindProxyForURL''))"

subsection \<open>A stub engine\<close>

text \<open>
  An instance of the engine record for evaluating the host at concrete inputs: compiling
  is decided by \<open>compile\<close>, running a script changes nothing, every global is
  \<open>entry\<close> and every call returns \<open>ret\<close>.
\<close>

definition stub_V8 :: "(String16 \<Rightarrow> v8_exception option) \<Rightarrow> js_value \<Rightarrow> js_value \<Rightarrow> unit V8" where
  "stub_V8 compile entry ret =
     \<lparr>Context_New = (),
      Script_Compile = (\<lambda>script g. compile script),
      Script_Run = (\<lambda>script g. ((), None)),
      Global_Get = (\<lambda>g name. entry),
      Function_Call = (\<lambda>f argv g. ((), Inr ret)),
      NewFromUtf8 = String16_literal,
      Value_ToString = (\<lambda>v. None)\<rparr>"

definition no_host :: host where
  "no_host = \<lparr>error_messages = [], alert_messages = [], v8_events = []\<rparr>"

text \<open>A compiler that rejects exactly the script \<open>bad\<close>, and a collaborator that knows one host.\<close>

definition rejects :: "String16 \<Rightarrow> String16 \<Rightarrow> v8_exception option" where
  "rejects bad script =
     (if script = bad then Some (Exception (Some (String16_literal ''SyntaxError''))) else None)"

definition stub_bindings :: ProxyResolverJSBindings where
  "stub_bindings =
     \<lparr>MyIpAddress = (True, ''192.168.1.1''),
      MyIpAddressEx = (True, ''192.168.1.1''),
      DnsResolve = (\<lambda>hostname. if hostname = ''a.test'' then (True, ''1.2.3.4'') else (False, [])),
      DnsResolveEx = (\<lambda>hostname. if hostname = ''a.test'' then (True, ''1.2.3.4'') else (False, []))\<rparr>"

section \<open>Properties of the IP utility algorithms\<close>

subsection \<open>RemoveChars deletes exactly the listed characters\<close>

lemma first_of_None: "first_of s cs = None \<longleftrightarrow> (\<forall>c\<in>set s. c \<notin> set cs)"
  by (induction s) auto

lemma first_of_Some:
  "first_of s cs = Some i \<Longrightarrow>
     i < length s \<and> s ! i \<in> set cs \<and> (\<forall>c\<in>set (take i s). c \<notin> set cs)"
proof (induction s arbitrary: i)
  case Nil
  then show ?case by simp
next
  case (Cons a s)
  then show ?case
    by (cases "a \<in> set cs") auto
qed

lemma find_first_of_None:
  "find_first_of s cs pos = None \<Longrightarrow> \<forall>c\<in>set (drop pos s). c \<notin> set cs"
  by (simp add: find_first_of_def first_of_None)

lemma find_first_of_Some:
  assumes "find_first_of s cs pos = Some i"
  shows "pos \<le> i" and "i < length s" and "s ! i \<in> set cs"
    and "\<forall>c\<in>set (take (i - pos) (drop pos s)). c \<notin> set cs"
proof -
  from assms obtain j where j: "first_of (drop pos s) cs = Some j" and i: "i = pos + j"
    by (auto simp: find_first_of_def)
  from first_of_Some [OF j] have *: "j < length (drop pos s)" "drop pos s ! j \<in> set cs"
    "\<forall>c\<in>set (take j (drop pos s)). c \<notin> set cs"
    by auto
  show "pos \<le> i" by (simp add: i)
  from * show "i < length s" by (simp add: i)
  from * show "s ! i \<in> set cs" by (simp add: i)
  from * show "\<forall>c\<in>set (take (i - pos) (drop pos s)). c \<notin> set cs" by (simp add: i)
qed

lemma RemoveChars_while_eq:
  assumes "found = find_first_of out cs pos" and "\<forall>c\<in>set (take pos out). c \<notin> set cs"
  shows "RemoveChars_while cs removed out found =
           (removed \<or> (\<exists>c\<in>set out. c \<in> set cs), filter (\<lambda>c. c \<notin> set cs) out)"
  using assms
proof (induction cs removed out found arbitrary: pos rule: RemoveChars_while.induct)
  case (1 remove_chars removed out)
  from find_first_of_None [OF "1.prems"(1) [symmetric]] "1.prems"(2)
  have "\<forall>c\<in>set (take pos out @ drop pos out). c \<notin> set remove_chars"
    unfolding set_append by blast
  then have clean: "\<forall>c\<in>set out. c \<notin> set remove_chars" by simp
  then have "filter (\<lambda>c. c \<notin> set remove_chars) out = out"
    by (simp add: filter_id_conv)
  with clean show ?case by auto
next
  case (2 remove_chars removed out found)
  note ff = find_first_of_Some [OF "2.prems"(1) [symmetric]]
  have pre: "\<forall>c\<in>set (take found out). c \<notin> set remove_chars"
  proof -
    have "take found out = take pos out @ take (found - pos) (drop pos out)"
      using ff(1) by (metis le_add_diff_inverse take_add)
    with ff(4) "2.prems"(2) show ?thesis by auto
  qed
  have out: "out = take found out @ out ! found # drop (Suc found) out"
    using ff(2) by (rule id_take_nth_drop)
  have pre': "\<forall>c\<in>set (take found (erase1 out found)). c \<notin> set remove_chars"
    using pre ff(2) by (simp add: erase1_def)
  have "RemoveChars_while remove_chars True (erase1 out found)
          (find_first_of (erase1 out found) remove_chars found) =
        (True \<or> (\<exists>c\<in>set (erase1 out found). c \<in> set remove_chars),
         filter (\<lambda>c. c \<notin> set remove_chars) (erase1 out found))"
    by (rule "2.IH" [OF refl pre'])
  moreover have "filter (\<lambda>c. c \<notin> set remove_chars) (erase1 out found) =
      filter (\<lambda>c. c \<notin> set remove_chars) out"
    by (subst (2) out) (simp add: erase1_def ff(3))
  moreover have "\<exists>c\<in>set out. c \<in> set remove_chars"
    using ff(2,3) nth_mem by blast
  ultimately show ?case by simp
qed

lemma RemoveChars_eq:
  "RemoveChars input cs = ((\<exists>c\<in>set input. c \<in> set cs), filter (\<lambda>c. c \<notin> set cs) input)"
  unfolding RemoveChars_def RemoveCharsT_def
  by (subst RemoveChars_while_eq [where pos = 0]) simp_all


lemma RemoveChars_space_tab:
  "RemoveChars input space_tab =
     ((\<exists>c\<in>set input. c = CHR '' '' \<or> c = CHR 0x09), strip_space_tab input)"
  by (simp add: RemoveChars_eq space_tab_def strip_space_tab_def)

lemma split_on_not_Nil: "split_on d s \<noteq> []"
  by (induction s) (auto split: list.split)

lemma split_on_unfold:
  "split_on d s = takeWhile (\<lambda>c. c \<noteq> d) s #
     (case dropWhile (\<lambda>c. c \<noteq> d) s of [] \<Rightarrow> [] | _ # r \<Rightarrow> split_on d r)"
  by (induction s) (auto split: list.split)

lemma split_on_append:
  "split_on d (xs @ d # ys) = split_on d xs @ split_on d ys"
proof (induction xs)
  case Nil
  show ?case by simp
next
  case (Cons c xs)
  obtain t ts where "split_on d xs = t # ts"
    using split_on_not_Nil [of d xs] by (cases "split_on d xs") auto
  with Cons show ?case by simp
qed

lemma tokens_Nil: "tokens [] = []"
  by (simp add: tokens_def)

lemma tokens_append: "tokens (xs @ CHR '';'' # ys) = tokens xs @ tokens ys"
  by (simp add: tokens_def split_on_append)

lemma tokens_no_empty: "t \<in> set (tokens s) \<Longrightarrow> t \<noteq> []"
  by (simp add: tokens_def)

lemma tokens_dropWhile: "tokens (dropWhile (\<lambda>c. c = CHR '';'') s) = tokens s"
  by (induction s) (simp_all add: tokens_def)

lemma tokens_all_semicolons:
  assumes "dropWhile (\<lambda>c. c = CHR '';'') s = []"
  shows "tokens s = []"
proof -
  have "tokens s = tokens (dropWhile (\<lambda>c. c = CHR '';'') s)"
    by (rule tokens_dropWhile [symmetric])
  also have "\<dots> = tokens []"
    by (simp only: assms)
  finally show ?thesis
    by (simp only: tokens_Nil)
qed

lemma tokens_step:
  assumes "s \<noteq> []" and "hd s \<noteq> CHR '';''"
  shows "tokens s = takeWhile (\<lambda>c. c \<noteq> CHR '';'') s #
           tokens (drop 1 (dropWhile (\<lambda>c. c \<noteq> CHR '';'') s))"
proof -
  let ?tw = "takeWhile (\<lambda>c. c \<noteq> CHR '';'') s"
  let ?dw = "dropWhile (\<lambda>c. c \<noteq> CHR '';'') s"
  from assms have ne: "?tw \<noteq> []"
    by (cases s) auto
  have unf: "split_on CHR '';'' s = ?tw # (case ?dw of [] \<Rightarrow> [] | _ # r \<Rightarrow> split_on CHR '';'' r)"
    by (rule split_on_unfold)
  show ?thesis
  proof (cases ?dw)
    case Nil
    with unf have "split_on CHR '';'' s = [?tw]" by simp
    with ne have "tokens s = [?tw]" by (simp add: tokens_def)
    moreover have "tokens (drop 1 ?dw) = []" by (simp only: Nil drop_Nil tokens_Nil)
    ultimately show ?thesis by simp
  next
    case (Cons x r)
    with unf have "split_on CHR '';'' s = ?tw # split_on CHR '';'' r" by simp
    with ne have "tokens s = ?tw # tokens r" by (simp add: tokens_def)
    moreover from Cons have "drop 1 ?dw = r" by simp
    ultimately show ?thesis by simp
  qed
qed

lemma strtok_semicolon:
  "strtok s '';'' =
     (case tokens s of [] \<Rightarrow> None
      | t # ts \<Rightarrow> Some (t, drop 1 (dropWhile (\<lambda>c. c \<noteq> CHR '';'') (dropWhile (\<lambda>c. c = CHR '';'') s))))"
proof -
  have eq1: "(\<lambda>c. c \<in> set '';'') = (\<lambda>c. c = CHR '';'')"
    and eq2: "(\<lambda>c. c \<notin> set '';'') = (\<lambda>c. c \<noteq> CHR '';'')"
    by auto
  show ?thesis
  proof (cases "dropWhile (\<lambda>c. c = CHR '';'') s = []")
    case True
    show ?thesis
      unfolding strtok_def Let_def eq1 eq2
      by (simp only: True tokens_all_semicolons [OF True] list.case simp_thms if_True)
  next
    case False
    then have "hd (dropWhile (\<lambda>c. c = CHR '';'') s) \<noteq> CHR '';''"
      using hd_dropWhile [of "\<lambda>c. c = CHR '';''" s] by simp
    from tokens_step [OF False this] have ts:
      "tokens s = takeWhile (\<lambda>c. c \<noteq> CHR '';'') (dropWhile (\<lambda>c. c = CHR '';'') s) #
           tokens (drop 1 (dropWhile (\<lambda>c. c \<noteq> CHR '';'') (dropWhile (\<lambda>c. c = CHR '';'') s)))"
      by (simp only: tokens_dropWhile)
    show ?thesis
      unfolding strtok_def Let_def eq1 eq2
      by (simp only: False ts list.case if_False)
  qed
qed

lemma tokens_rest:
  assumes "tokens s = t # ts"
  shows "tokens (drop 1 (dropWhile (\<lambda>c. c \<noteq> CHR '';'') (dropWhile (\<lambda>c. c = CHR '';'') s))) = ts"
proof -
  have ne: "dropWhile (\<lambda>c. c = CHR '';'') s \<noteq> []"
    using tokens_all_semicolons [of s] assms by auto
  then have "hd (dropWhile (\<lambda>c. c = CHR '';'') s) \<noteq> CHR '';''"
    using hd_dropWhile [of "\<lambda>c. c = CHR '';''" s] by simp
  from tokens_step [OF ne this] have
    "tokens s = takeWhile (\<lambda>c. c \<noteq> CHR '';'') (dropWhile (\<lambda>c. c = CHR '';'') s) #
           tokens (drop 1 (dropWhile (\<lambda>c. c \<noteq> CHR '';'') (dropWhile (\<lambda>c. c = CHR '';'') s)))"
    by (simp only: tokens_dropWhile)
  with assms show ?thesis by simp
qed

lemma SortIpAddressList_while_eq:
  "SortIpAddressList_while parse (strtok s '';'') vec =
     map_option ((@) vec) (parse_tokens parse (tokens s))"
proof (induction "tokens s" arbitrary: s vec)
  case Nil
  then have "tokens s = []" by simp
  then show ?case by (simp add: strtok_semicolon)
next
  case (Cons t ts)
  let ?rest = "drop 1 (dropWhile (\<lambda>c. c \<noteq> CHR '';'') (dropWhile (\<lambda>c. c = CHR '';'') s))"
  from Cons(2) have ts: "tokens s = t # ts" by simp
  have rest: "ts = tokens ?rest"
    using tokens_rest [OF ts] by simp
  have st: "strtok s '';'' = Some (t, ?rest)"
    by (simp add: strtok_semicolon ts)
  show ?case
  proof (cases "parse t")
    case None
    then show ?thesis by (simp add: st ts)
  next
    case (Some n)
    have "SortIpAddressList_while parse (strtok s '';'') vec =
        SortIpAddressList_while parse (strtok ?rest '';'')
          (vec @ [\<lparr>string_value = t, ip_address_number = n\<rparr>])"
      by (simp only: st SortIpAddressList_while.simps Some option.case)
    also have "\<dots> = map_option ((@) (vec @ [\<lparr>string_value = t, ip_address_number = n\<rparr>]))
        (parse_tokens parse (tokens ?rest))"
      by (rule Cons(1) [OF rest])
    also have "\<dots> = map_option ((@) (vec @ [\<lparr>string_value = t, ip_address_number = n\<rparr>]))
        (parse_tokens parse ts)"
      by (simp only: rest [symmetric])
    also have "\<dots> = map_option ((@) vec) (parse_tokens parse (tokens s))"
      by (cases "parse_tokens parse ts") (simp_all add: ts Some)
    finally show ?thesis .
  qed
qed


lemma join_addresses_acc:
  "join_addresses acc i (a # as) =
     (if i > 0 then acc @ '';'' else acc) @ join_semicolon (map string_value (a # as))"
proof (induction as arbitrary: acc i a)
  case Nil
  show ?case by simp
next
  case (Cons b bs)
  let ?acc = "(if i > 0 then acc @ '';'' else acc) @ string_value a"
  have "join_addresses acc i (a # b # bs) = join_addresses ?acc (Suc i) (b # bs)"
    by (rule join_addresses.simps(2))
  also have "\<dots> = (?acc @ '';'') @ join_semicolon (map string_value (b # bs))"
    by (subst Cons.IH) simp
  also have "\<dots> = (if i > 0 then acc @ '';'' else acc) @ join_semicolon (map string_value (a # b # bs))"
    by simp
  finally show ?case .
qed

lemma join_addresses_eq:
  "join_addresses [] 0 v = join_semicolon (map string_value v)"
proof (cases v)
  case Nil
  then show ?thesis by simp
next
  case (Cons a as)
  show ?thesis
    unfolding Cons by (subst join_addresses_acc) simp
qed

lemma stable_sort_single: "stable_sort lt [x] = [x]"
  by (simp add: stable_sort_def)

lemma strip_empty_tokens: "tokens (c_str []) = []"
  by (simp add: c_str_def tokens_def)

text \<open>
  The code against the spec's reading: \<^verbatim>\<open>SortIpAddressList\<close> parses the tokens of
  the C string held by the stripped input, sorts them and joins their textual forms.
\<close>

lemma SortIpAddressList_eq:
  "SortIpAddressList parse input =
     (case parse_tokens parse (tokens (c_str (strip_space_tab input))) of
        None \<Rightarrow> (False, [])
      | Some v \<Rightarrow>
          if v = [] then (False, [])
          else (True, join_semicolon (map string_value (stable_sort IPAddress_less v))))"
proof (cases "strip_space_tab input = []")
  case True
  then show ?thesis
    by (simp add: SortIpAddressList_def RemoveChars_space_tab strip_empty_tokens)
next
  case False
  have one: "\<not> 1 < length v \<Longrightarrow> v \<noteq> [] \<Longrightarrow> stable_sort IPAddress_less v = v"
    for v :: "IPAddress list"
    by (cases v) (simp_all add: stable_sort_single)
  from False show ?thesis
    by (auto simp: SortIpAddressList_def RemoveChars_space_tab SortIpAddressList_while_eq
        join_addresses_eq one Let_def option.map_ident split: option.split)
qed

subsection \<open>Empty pieces are never tokens\<close>

lemma parse_tokens_upd:
  "[] \<notin> set ts \<Longrightarrow> parse_tokens (parse([] := x)) ts = parse_tokens parse ts"
  by (induction ts) (auto split: option.split)

lemma SortIpAddressList_parse_empty:
  "SortIpAddressList (parse([] := x)) input = SortIpAddressList parse input"
proof -
  have "[] \<notin> set (tokens (c_str (strip_space_tab input)))"
    using tokens_no_empty by blast
  then show ?thesis
    by (simp add: SortIpAddressList_eq parse_tokens_upd)
qed

lemma c_str_append:
  "c_str (a @ b) = (if CHR 0x00 \<in> set a then c_str a else a @ c_str b)"
  by (auto simp: c_str_def takeWhile_append)

lemma c_str_semicolon: "c_str (CHR '';'' # b) = CHR '';'' # c_str b"
  by (simp add: c_str_def)

lemma strip_space_tab_append:
  "strip_space_tab (a @ b) = strip_space_tab a @ strip_space_tab b"
  by (simp add: strip_space_tab_def)

lemma strip_space_tab_semicolon:
  "strip_space_tab (CHR '';'' # b) = CHR '';'' # strip_space_tab b"
  by (simp add: strip_space_tab_def)

lemma tokens_semicolon: "tokens (CHR '';'' # s) = tokens s"
  using tokens_append [of "[]" s] by (simp add: tokens_Nil)

lemma tokens_c_str_double:
  "tokens (c_str (a @ CHR '';'' # CHR '';'' # b)) = tokens (c_str (a @ CHR '';'' # b))"
  by (simp add: c_str_append c_str_semicolon tokens_append tokens_semicolon)

lemma tokens_c_str_trailing:
  "tokens (c_str (a @ '';'')) = tokens (c_str a)"
proof (cases "CHR 0x00 \<in> set a")
  case True
  then show ?thesis by (simp add: c_str_append)
next
  case False
  then have "c_str a = a" by (auto simp: c_str_def takeWhile_eq_all_conv)
  with False show ?thesis
    by (simp add: c_str_append c_str_semicolon tokens_append) (simp add: c_str_def tokens_Nil)
qed

lemma SortIpAddressList_double_semicolon:
  "SortIpAddressList parse (xs @ '';;'' @ ys) = SortIpAddressList parse (xs @ '';'' @ ys)"
  by (simp add: SortIpAddressList_eq strip_space_tab_append strip_space_tab_semicolon
      tokens_c_str_double)

lemma SortIpAddressList_leading_semicolon:
  "SortIpAddressList parse ('';'' @ xs) = SortIpAddressList parse xs"
  by (simp add: SortIpAddressList_eq strip_space_tab_semicolon c_str_semicolon tokens_semicolon)

lemma SortIpAddressList_trailing_semicolon:
  "SortIpAddressList parse (xs @ '';'') = SortIpAddressList parse xs"
proof -
  have "strip_space_tab (xs @ '';'') = strip_space_tab xs @ '';''"
    by (simp add: strip_space_tab_append strip_space_tab_semicolon) (simp add: strip_space_tab_def)
  then show ?thesis
    by (simp only: SortIpAddressList_eq tokens_c_str_trailing)
qed


subsection \<open>The ordering of addresses\<close>

lemma memcmp_lexord:
  "length a = length b \<Longrightarrow>
     (memcmp a b (length a) < 0) = ((a, b) \<in> lexord {(x, y). x < y})"
  by (induction a b rule: list_induct2) auto

lemma memcmp_asym:
  "length a = length b \<Longrightarrow> memcmp a b (length a) < 0 \<Longrightarrow> \<not> memcmp b a (length b) < 0"
  by (induction a b rule: list_induct2) (auto split: if_splits)

lemma memcmp_total:
  "length a = length b \<Longrightarrow> \<not> memcmp a b (length a) < 0 \<Longrightarrow> \<not> memcmp b a (length b) < 0
     \<Longrightarrow> a = b"
  by (induction a b rule: list_induct2) (auto split: if_splits)

lemma memcmp_negtrans:
  "length a = length b \<Longrightarrow> length b = length c \<Longrightarrow>
     \<not> memcmp b a (length b) < 0 \<Longrightarrow> \<not> memcmp c b (length c) < 0 \<Longrightarrow>
     \<not> memcmp c a (length c) < 0"
  by (induction a b c rule: list_induct3) (auto split: if_splits)

lemma memcmp_same: "\<not> memcmp a a (length a) < 0"
  by (induction a) auto

lemma IPAddress_less_asym: "IPAddress_less a b \<Longrightarrow> \<not> IPAddress_less b a"
  using memcmp_asym [of "ip_address_number a" "ip_address_number b"]
  by (auto simp: IPAddress_less_def Let_def split: if_splits)

lemma IPAddress_less_negtrans:
  "\<not> IPAddress_less b a \<Longrightarrow> \<not> IPAddress_less c b \<Longrightarrow> \<not> IPAddress_less c a"
  using memcmp_negtrans [of "ip_address_number a" "ip_address_number b" "ip_address_number c"]
  by (auto simp: IPAddress_less_def Let_def split: if_splits)

lemma IPAddress_less_number:
  "IPAddress_less a b \<Longrightarrow> ip_address_number a \<noteq> ip_address_number b"
  using memcmp_same [of "ip_address_number b"]
  by (auto simp: IPAddress_less_def Let_def split: if_splits)

lemma IPAddress_equiv:
  "\<not> IPAddress_less a b \<Longrightarrow> \<not> IPAddress_less b a \<Longrightarrow> ip_address_number a = ip_address_number b"
  using memcmp_total [of "ip_address_number a" "ip_address_number b"]
  by (auto simp: IPAddress_less_def Let_def split: if_splits)

lemma IPAddress_less_longer:
  "length (ip_address_number a) > length (ip_address_number b) \<Longrightarrow>
     IPAddress_less a b \<and> \<not> IPAddress_less b a"
  by (auto simp: IPAddress_less_def Let_def)

lemma IPAddress_less_same_length:
  "length (ip_address_number a) = length (ip_address_number b) \<Longrightarrow>
     IPAddress_less a b = ((ip_address_number a, ip_address_number b) \<in> lexord {(x, y). x < y})"
  using memcmp_lexord [of "ip_address_number a" "ip_address_number b"]
  by (simp add: IPAddress_less_def Let_def)

subsection \<open>The sort is a sorted, stable permutation\<close>

lemma mset_stable_insert: "mset (stable_insert lt x ys) = add_mset x (mset ys)"
  by (induction ys) auto

lemma mset_stable_sort: "mset (stable_sort lt xs) = mset xs"
  unfolding stable_sort_def by (induction xs) (auto simp: mset_stable_insert)

lemma set_stable_insert: "set (stable_insert lt x ys) = insert x (set ys)"
  by (induction ys) auto

lemma sorted_stable_insert:
  assumes asym: "\<And>a b. lt a b \<Longrightarrow> \<not> lt b a"
    and negtrans: "\<And>a b c. \<not> lt b a \<Longrightarrow> \<not> lt c b \<Longrightarrow> \<not> lt c a"
  shows "sorted_wrt (\<lambda>a b. \<not> lt b a) ys \<Longrightarrow> sorted_wrt (\<lambda>a b. \<not> lt b a) (stable_insert lt x ys)"
proof (induction ys)
  case Nil
  show ?case by simp
next
  case (Cons y ys)
  show ?case
  proof (cases "lt y x")
    case True
    with Cons asym show ?thesis
      by (auto simp: set_stable_insert)
  next
    case False
    with Cons negtrans show ?thesis
      by auto
  qed
qed

lemma sorted_stable_sort:
  assumes "\<And>a b. lt a b \<Longrightarrow> \<not> lt b a"
    and "\<And>a b c. \<not> lt b a \<Longrightarrow> \<not> lt c b \<Longrightarrow> \<not> lt c a"
  shows "sorted_wrt (\<lambda>a b. \<not> lt b a) (stable_sort lt xs)"
  unfolding stable_sort_def
  by (induction xs) (simp_all add: sorted_stable_insert [of lt, OF assms])

lemma filter_stable_insert:
  assumes "\<And>y. lt y x \<Longrightarrow> k y \<noteq> k x"
  shows "filter (\<lambda>y. k y = v) (stable_insert lt x ys) =
           (if k x = v then x # filter (\<lambda>y. k y = v) ys else filter (\<lambda>y. k y = v) ys)"
proof (induction ys)
  case Nil
  show ?case by simp
next
  case (Cons y ys)
  show ?case
  proof (cases "lt y x")
    case True
    then have "k y \<noteq> k x" by (rule assms)
    with True Cons show ?thesis by auto
  next
    case False
    then show ?thesis by simp
  qed
qed

lemma stable_sort_stable:
  assumes "\<And>a b. lt a b \<Longrightarrow> k a \<noteq> k b"
  shows "filter (\<lambda>y. k y = v) (stable_sort lt xs) = filter (\<lambda>y. k y = v) xs"
  unfolding stable_sort_def
  by (induction xs) (simp_all add: filter_stable_insert assms)

subsection \<open>Failure and success of SortIpAddressList\<close>

lemma parse_tokens_None:
  "parse_tokens parse ts = None \<longleftrightarrow> (\<exists>t\<in>set ts. parse t = None)"
  by (induction ts) (auto split: option.split)

lemma parse_tokens_Some:
  "parse_tokens parse ts = Some v \<Longrightarrow>
     map string_value v = ts \<and> (\<forall>a\<in>set v. parse (string_value a) = Some (ip_address_number a))"
  by (induction ts arbitrary: v) (auto split: option.splits)

lemma c_str_no_NUL: "CHR 0x00 \<notin> set s \<Longrightarrow> c_str s = s"
  by (auto simp: c_str_def takeWhile_eq_all_conv)

lemma strip_space_tab_no_NUL: "CHR 0x00 \<notin> set s \<Longrightarrow> CHR 0x00 \<notin> set (strip_space_tab s)"
  by (simp add: strip_space_tab_def)

lemma SortIpAddressList_fails:
  assumes "strip_space_tab input = [] \<or>
           (\<exists>t\<in>set (tokens (c_str (strip_space_tab input))). parse t = None) \<or>
           tokens (c_str (strip_space_tab input)) = []"
  shows "SortIpAddressList parse input = (False, [])"
proof -
  from assms consider "\<exists>t\<in>set (tokens (c_str (strip_space_tab input))). parse t = None"
    | "tokens (c_str (strip_space_tab input)) = []"
    by (auto simp: strip_empty_tokens)
  then show ?thesis
  proof cases
    case 1
    then have "parse_tokens parse (tokens (c_str (strip_space_tab input))) = None"
      by (simp add: parse_tokens_None)
    then show ?thesis by (simp add: SortIpAddressList_eq)
  next
    case 2
    then show ?thesis by (simp add: SortIpAddressList_eq)
  qed
qed

lemma SortIpAddressList_fails_no_NUL:
  assumes "CHR 0x00 \<notin> set input"
    and "strip_space_tab input = [] \<or>
           (\<exists>t\<in>set (tokens (strip_space_tab input)). parse t = None) \<or>
           tokens (strip_space_tab input) = []"
  shows "SortIpAddressList parse input = (False, [])"
  using assms(2) c_str_no_NUL [OF strip_space_tab_no_NUL [OF assms(1)]]
  by (intro SortIpAddressList_fails) simp

lemma SortIpAddressList_succeeds:
  assumes "SortIpAddressList parse input = (True, out)"
  obtains v where "parse_tokens parse (tokens (c_str (strip_space_tab input))) = Some v"
    and "v \<noteq> []" and "out = join_semicolon (map string_value (stable_sort IPAddress_less v))"
  using assms by (auto simp: SortIpAddressList_eq split: option.splits if_splits)

lemma SortIpAddressList_sorted_no_NUL:
  assumes "CHR 0x00 \<notin> set input" and "SortIpAddressList parse input = (True, out)"
  shows "\<exists>v sorted.
           map string_value v = tokens (strip_space_tab input) \<and>
           (\<forall>a\<in>set v. parse (string_value a) = Some (ip_address_number a)) \<and>
           mset sorted = mset v \<and>
           sorted_wrt (\<lambda>a b. \<not> IPAddress_less b a) sorted \<and>
           (\<forall>n. filter (\<lambda>a. ip_address_number a = n) sorted =
                filter (\<lambda>a. ip_address_number a = n) v) \<and>
           out = join_semicolon (map string_value sorted)"
proof -
  from assms(2) obtain v where v: "parse_tokens parse (tokens (c_str (strip_space_tab input))) = Some v"
    and out: "out = join_semicolon (map string_value (stable_sort IPAddress_less v))"
    by (rule SortIpAddressList_succeeds)
  from assms(1) have "c_str (strip_space_tab input) = strip_space_tab input"
    by (intro c_str_no_NUL strip_space_tab_no_NUL)
  with v have "parse_tokens parse (tokens (strip_space_tab input)) = Some v" by simp
  from parse_tokens_Some [OF this] have
    "map string_value v = tokens (strip_space_tab input)"
    "\<forall>a\<in>set v. parse (string_value a) = Some (ip_address_number a)"
    by auto
  moreover have "mset (stable_sort IPAddress_less v) = mset v"
    by (rule mset_stable_sort)
  moreover have "sorted_wrt (\<lambda>a b. \<not> IPAddress_less b a) (stable_sort IPAddress_less v)"
    by (rule sorted_stable_sort) (auto dest: IPAddress_less_asym IPAddress_less_negtrans)
  moreover have "filter (\<lambda>a. ip_address_number a = n) (stable_sort IPAddress_less v) =
      filter (\<lambda>a. ip_address_number a = n) v" for n
    by (rule stable_sort_stable) (rule IPAddress_less_number)
  ultimately show ?thesis using out by blast
qed

subsection \<open>Claims about SortIpAddressList\<close>

text \<open>The examples of the spec (section 8), with the parser's values on the literals.\<close>

lemma SortIpAddressList_examples:
  "SortIpAddressList sample_ParseIPLiteralToNumber ''::1;1.2.3.4'' = (True, ''::1;1.2.3.4'') \<and>
   SortIpAddressList sample_ParseIPLiteralToNumber ''1.2.3.4;::1'' = (True, ''::1;1.2.3.4'') \<and>
   SortIpAddressList sample_ParseIPLiteralToNumber ''40.1.1.1;1.2.3.4'' = (True, ''1.2.3.4;40.1.1.1'')"
  by code_simp

lemma SortIpAddressList_separators_only:
  "SortIpAddressList parse '';'' = (False, []) \<and> SortIpAddressList parse [] = (False, [])"
  by (simp add: SortIpAddressList_eq tokens_def c_str_def strip_space_tab_def)

text \<open>
  Claim C2. On success the output should be the addresses of the input, stably sorted
  (16-byte before 4-byte, equal lengths by their bytes) and joined in their textual
  form. \<open>SortIpAddressList_sorted_no_NUL\<close> above proves this for every input that
  holds no NUL byte. \<^verbatim>\<open>strtok\<close> however scans \<^verbatim>\<open>c_str()\<close>, which ends at the first
  NUL: on the input \<^verbatim>\<open>9.9.9.9\0;1.2.3.4\<close> the call succeeds with \<^verbatim>\<open>9.9.9.9\<close> alone,
  and the address \<^verbatim>\<open>1.2.3.4\<close> of the input is missing from the output.
\<close>

theorem SortIpAddressList_NUL_drops_address:
  "SortIpAddressList sample_ParseIPLiteralToNumber (''9.9.9.9'' @ [CHR 0x00] @ '';1.2.3.4'') =
     (True, ''9.9.9.9'')"
  by code_simp

text \<open>
  Claim C3. The call should fail whenever the stripped input is empty, a token fails to
  parse, or no token was parsed. \<open>SortIpAddressList_fails_no_NUL\<close> and
  \<open>SortIpAddressList_separators_only\<close> above prove this for every input that holds no
  NUL byte. On the input \<^verbatim>\<open>1.2.3.4\0;not-an-ip\<close> the token \<^verbatim>\<open>not-an-ip\<close> does not
  parse, yet the call succeeds with \<^verbatim>\<open>1.2.3.4\<close>: the token lies behind the NUL and
  \<^verbatim>\<open>strtok\<close> never reaches it.
\<close>

theorem SortIpAddressList_NUL_hides_bad_token:
  "SortIpAddressList sample_ParseIPLiteralToNumber (''1.2.3.4'' @ [CHR 0x00] @ '';not-an-ip'') =
     (True, ''1.2.3.4'') \<and>
   ''not-an-ip'' \<in> set (tokens (strip_space_tab (''1.2.3.4'' @ [CHR 0x00] @ '';not-an-ip''))) \<and>
   sample_ParseIPLiteralToNumber ''not-an-ip'' = None"
proof (intro conjI)
  show "SortIpAddressList sample_ParseIPLiteralToNumber
          (''1.2.3.4'' @ [CHR 0x00] @ '';not-an-ip'') = (True, ''1.2.3.4'')"
    by code_simp
  show "''not-an-ip'' \<in> set (tokens (strip_space_tab (''1.2.3.4'' @ [CHR 0x00] @ '';not-an-ip'')))"
    by (simp add: tokens_def strip_space_tab_def)
  show "sample_ParseIPLiteralToNumber ''not-an-ip'' = None"
    by (simp add: sample_ParseIPLiteralToNumber_def)
qed

lemma tokens_example:
  "tokens (c_str (strip_space_tab ''1.2.3.4;;5.6.7.8'')) = [''1.2.3.4'', ''5.6.7.8'']"
  by (simp add: tokens_def c_str_def strip_space_tab_def)

lemma SortIpAddressList_example_empty_segment:
  assumes "parse ''1.2.3.4'' = Some [1, 2, 3, 4]" and "parse ''5.6.7.8'' = Some [5, 6, 7, 8]"
  shows "SortIpAddressList parse ''1.2.3.4;;5.6.7.8'' = (True, ''1.2.3.4;5.6.7.8'')"
  by (simp add: SortIpAddressList_eq tokens_example assms stable_sort_def IPAddress_less_def)

text \<open>
  Claim C10. For every input, the empty pieces that consecutive, leading or trailing
  \<open>;\<close> produce are skipped and never count as parse failures: the result does not
  depend on what the parser says about the empty string, doubling a separator or putting
  one in front or at the end changes nothing, and \<^verbatim>\<open>1.2.3.4;;5.6.7.8\<close> succeeds with
  the two addresses sorted.
\<close>

theorem SortIpAddressList_skips_empty_segments:
  "SortIpAddressList (parse([] := x)) input = SortIpAddressList parse input \<and>
   SortIpAddressList parse (xs @ '';;'' @ ys) = SortIpAddressList parse (xs @ '';'' @ ys) \<and>
   SortIpAddressList parse ('';'' @ xs) = SortIpAddressList parse xs \<and>
   SortIpAddressList parse (xs @ '';'') = SortIpAddressList parse xs \<and>
   (parse ''1.2.3.4'' = Some [1, 2, 3, 4] \<and> parse ''5.6.7.8'' = Some [5, 6, 7, 8] \<longrightarrow>
      SortIpAddressList parse ''1.2.3.4;;5.6.7.8'' = (True, ''1.2.3.4;5.6.7.8''))"
  using SortIpAddressList_parse_empty [of parse x input]
    SortIpAddressList_double_semicolon [of parse xs ys]
    SortIpAddressList_leading_semicolon [of parse xs]
    SortIpAddressList_trailing_semicolon [of parse xs]
    SortIpAddressList_example_empty_segment [of parse]
  by blast

theorem SortIpAddressList_skips_empty_segments_witness:
  "sample_ParseIPLiteralToNumber [] = None \<and>
   sample_ParseIPLiteralToNumber ''1.2.3.4'' = Some [1, 2, 3, 4] \<and>
   sample_ParseIPLiteralToNumber ''5.6.7.8'' = Some [5, 6, 7, 8] \<and>
   SortIpAddressList sample_ParseIPLiteralToNumber ''1.2.3.4;;5.6.7.8'' = (True, ''1.2.3.4;5.6.7.8'')"
  using SortIpAddressList_skips_empty_segments [of sample_ParseIPLiteralToNumber None "[]" "[]" "[]"]
  by (simp add: sample_ParseIPLiteralToNumber_def)

subsection \<open>Claims about IsInNetEx\<close>

lemma IsInNetEx_stripped:
  "\<exists>c\<in>set ip_address. c = CHR '' '' \<or> c = CHR 0x09 \<Longrightarrow>
     \<not> IsInNetEx parse cidr ip_address ip_prefix"
  by (simp add: IsInNetEx_def RemoveChars_space_tab)

lemma IsInNetEx_clean:
  "\<forall>c\<in>set ip_address. c \<noteq> CHR '' '' \<and> c \<noteq> CHR 0x09 \<Longrightarrow>
     IsInNetEx parse cidr ip_address ip_prefix =
       (case parse ip_address of
          None \<Rightarrow> False
        | Some address \<Rightarrow>
            (case cidr ip_prefix of
               None \<Rightarrow> False
             | Some (prefix, n) \<Rightarrow>
                 length address = length prefix \<and> IPNumberMatchesPrefix address prefix n))"
  by (auto simp: IsInNetEx_def RemoveChars_space_tab split: option.splits)

lemma top_bits_10_1: "IPNumberMatchesPrefix [10, 1, 2, 3] [10, 1, 0, 0] 16"
  by (simp add: IPNumberMatchesPrefix_def bits_of_def bits_of_byte_def)

text \<open>
  Claim C4. For every address and prefix, \<^verbatim>\<open>IsInNetEx\<close> is false if the address holds a
  space or a tab (stripping would remove a character), if the address does not parse,
  if the prefix does not parse as a CIDR block, or if address and prefix differ in byte
  length; otherwise it is true iff the top \<open>n\<close> bits of the address equal those of the
  prefix, \<open>n\<close> being the prefix length. With the parsers' values on the literals,
  \<^verbatim>\<open>IsInNetEx("10.1.2.3", "10.1.0.0/16")\<close> is true and
  \<^verbatim>\<open>IsInNetEx("10.1.2.3", "::/16")\<close> is false.
\<close>

theorem IsInNetEx_result:
  "((\<exists>c\<in>set ip_address. c = CHR '' '' \<or> c = CHR 0x09) \<longrightarrow>
      \<not> IsInNetEx parse cidr ip_address ip_prefix) \<and>
   (parse ip_address = None \<longrightarrow> \<not> IsInNetEx parse cidr ip_address ip_prefix) \<and>
   (cidr ip_prefix = None \<longrightarrow> \<not> IsInNetEx parse cidr ip_address ip_prefix) \<and>
   (\<forall>address prefix n.
      parse ip_address = Some address \<and> cidr ip_prefix = Some (prefix, n) \<and>
      length address \<noteq> length prefix \<longrightarrow>
        \<not> IsInNetEx parse cidr ip_address ip_prefix) \<and>
   (\<forall>address prefix n.
      (\<forall>c\<in>set ip_address. c \<noteq> CHR '' '' \<and> c \<noteq> CHR 0x09) \<and>
      parse ip_address = Some address \<and> cidr ip_prefix = Some (prefix, n) \<and>
      length address = length prefix \<longrightarrow>
        IsInNetEx parse cidr ip_address ip_prefix =
          (take n (bits_of address) = take n (bits_of prefix))) \<and>
   (parse ''10.1.2.3'' = Some [10, 1, 2, 3] \<and>
    cidr ''10.1.0.0/16'' = Some ([10, 1, 0, 0], 16) \<longrightarrow>
      IsInNetEx parse cidr ''10.1.2.3'' ''10.1.0.0/16'') \<and>
   (parse ''10.1.2.3'' = Some [10, 1, 2, 3] \<and>
    cidr ''::/16'' = Some ([0, 0, 0, 0, 0, 0, 0, 0, 0, 0, 0, 0, 0, 0, 0, 0], 16) \<longrightarrow>
      \<not> IsInNetEx parse cidr ''10.1.2.3'' ''::/16'')"
proof (intro conjI allI impI)
  assume "\<exists>c\<in>set ip_address. c = CHR '' '' \<or> c = CHR 0x09"
  then show "\<not> IsInNetEx parse cidr ip_address ip_prefix"
    by (rule IsInNetEx_stripped)
next
  assume "parse ip_address = None"
  then show "\<not> IsInNetEx parse cidr ip_address ip_prefix"
    by (simp add: IsInNetEx_def)
next
  assume "cidr ip_prefix = None"
  then show "\<not> IsInNetEx parse cidr ip_address ip_prefix"
    by (simp add: IsInNetEx_def split: option.split)
next
  fix address prefix n
  assume "parse ip_address = Some address \<and> cidr ip_prefix = Some (prefix, n) \<and>
      length address \<noteq> length prefix"
  then show "\<not> IsInNetEx parse cidr ip_address ip_prefix"
    by (simp add: IsInNetEx_def)
next
  fix address prefix n
  assume "(\<forall>c\<in>set ip_address. c \<noteq> CHR '' '' \<and> c \<noteq> CHR 0x09) \<and>
      parse ip_address = Some address \<and> cidr ip_prefix = Some (prefix, n) \<and>
      length address = length prefix"
  then show "IsInNetEx parse cidr ip_address ip_prefix =
          (take n (bits_of address) = take n (bits_of prefix))"
    by (simp add: IsInNetEx_clean IPNumberMatchesPrefix_def)
next
  assume "parse ''10.1.2.3'' = Some [10, 1, 2, 3] \<and>
    cidr ''10.1.0.0/16'' = Some ([10, 1, 0, 0], 16)"
  then show "IsInNetEx parse cidr ''10.1.2.3'' ''10.1.0.0/16''"
    by (simp add: IsInNetEx_clean top_bits_10_1)
next
  assume "parse ''10.1.2.3'' = Some [10, 1, 2, 3] \<and>
    cidr ''::/16'' = Some ([0, 0, 0, 0, 0, 0, 0, 0, 0, 0, 0, 0, 0, 0, 0, 0], 16)"
  then show "\<not> IsInNetEx parse cidr ''10.1.2.3'' ''::/16''"
    by (simp add: IsInNetEx_clean)
qed

theorem IsInNetEx_result_witness:
  "sample_ParseIPLiteralToNumber ''10.1.2.3'' = Some [10, 1, 2, 3] \<and>
   sample_ParseCIDRBlock ''10.1.0.0/16'' = Some ([10, 1, 0, 0], 16) \<and>
   sample_ParseCIDRBlock ''::/16'' = Some ([0, 0, 0, 0, 0, 0, 0, 0, 0, 0, 0, 0, 0, 0, 0, 0], 16) \<and>
   IsInNetEx sample_ParseIPLiteralToNumber sample_ParseCIDRBlock ''10.1.2.3'' ''10.1.0.0/16'' \<and>
   \<not> IsInNetEx sample_ParseIPLiteralToNumber sample_ParseCIDRBlock ''10.1.2.3'' ''::/16'' \<and>
   \<not> IsInNetEx sample_ParseIPLiteralToNumber sample_ParseCIDRBlock '' 10.1.2.3'' ''10.1.0.0/16'' \<and>
   \<not> IsInNetEx sample_ParseIPLiteralToNumber sample_ParseCIDRBlock ''10.1.2.3'' ''10.1.0.0''"
  using IsInNetEx_result [of "''10.1.2.3''" sample_ParseIPLiteralToNumber sample_ParseCIDRBlock "''10.1.0.0/16''"]
    IsInNetEx_result [of "'' 10.1.2.3''" sample_ParseIPLiteralToNumber sample_ParseCIDRBlock "''10.1.0.0/16''"]
    IsInNetEx_result [of "''10.1.2.3''" sample_ParseIPLiteralToNumber sample_ParseCIDRBlock "''10.1.0.0''"]
  by (simp add: sample_ParseIPLiteralToNumber_def sample_ParseCIDRBlock_def)

section \<open>Properties of the script host\<close>

lemma IsStringASCII_iff: "IsStringASCII s \<longleftrightarrow> (\<forall>c\<in>set s. c \<le> 0x7F)"
  unfolding IsStringASCII_def by (induction s) (auto simp: not_less)

lemma RunScript_ok:
  "\<not> script_fails v8 script g \<Longrightarrow>
     RunScript v8 script name g h =
       (OK, fst (Script_Run v8 script g), log_event (Run name) (log_event (Compile name) h))"
  by (auto simp: RunScript_def script_fails_def split: option.splits prod.splits)

lemma RunScript_fail:
  assumes "script_fails v8 script g"
  shows "\<exists>g' h'. RunScript v8 script name g h = (ERR_PAC_SCRIPT_FAILED, g', h') \<and>
           (v8_events h' = v8_events h @ [Compile name] \<or>
            v8_events h' = v8_events h @ [Compile name, Run name])"
  using assms
  by (auto simp: RunScript_def log_event_def HandleError_def ErrorMessage_def script_fails_def
      split: option.splits prod.splits)

lemma InitV8_utility_fails:
  assumes "script_fails v8 (ASCIILiteralToV8String v8 utility) (Context_New v8)"
  shows "\<exists>ctx h'. InitV8 v8 utility pac_script h = (ERR_PAC_SCRIPT_FAILED, ctx, h') \<and>
           (v8_events h' = v8_events h @ [Locker, NewContext, Compile kPacUtilityResourceName] \<or>
            v8_events h' = v8_events h @ [Locker, NewContext, Compile kPacUtilityResourceName,
                                          Run kPacUtilityResourceName])"
proof -
  from RunScript_fail [OF assms, of kPacUtilityResourceName "log_event NewContext (log_event Locker h)"]
  obtain g' h' where
    "RunScript v8 (ASCIILiteralToV8String v8 utility) kPacUtilityResourceName (Context_New v8)
       (log_event NewContext (log_event Locker h)) = (ERR_PAC_SCRIPT_FAILED, g', h')"
    "v8_events h' = v8_events (log_event NewContext (log_event Locker h)) @ [Compile kPacUtilityResourceName] \<or>
     v8_events h' = v8_events (log_event NewContext (log_event Locker h)) @
        [Compile kPacUtilityResourceName, Run kPacUtilityResourceName]"
    by blast
  then show ?thesis
    by (auto simp: InitV8_def log_event_def)
qed

lemma InitV8_user_fails:
  assumes "\<not> script_fails v8 (ASCIILiteralToV8String v8 utility) (Context_New v8)"
    and "script_fails v8 pac_script
           (fst (Script_Run v8 (ASCIILiteralToV8String v8 utility) (Context_New v8)))"
  shows "\<exists>ctx h'. InitV8 v8 utility pac_script h = (ERR_PAC_SCRIPT_FAILED, ctx, h') \<and>
           (\<exists>rest. v8_events h' =
              v8_events h @ [Locker, NewContext, Compile kPacUtilityResourceName,
                             Run kPacUtilityResourceName, Compile kPacResourceName] @ rest)"
proof -
  let ?h1 = "log_event (Run kPacUtilityResourceName) (log_event (Compile kPacUtilityResourceName)
              (log_event NewContext (log_event Locker h)))"
  from RunScript_fail [OF assms(2), of kPacResourceName ?h1]
  obtain g' h' where
    "RunScript v8 pac_script kPacResourceName
       (fst (Script_Run v8 (ASCIILiteralToV8String v8 utility) (Context_New v8))) ?h1 =
       (ERR_PAC_SCRIPT_FAILED, g', h')"
    "v8_events h' = v8_events ?h1 @ [Compile kPacResourceName] \<or>
     v8_events h' = v8_events ?h1 @ [Compile kPacResourceName, Run kPacResourceName]"
    by blast
  then show ?thesis
    by (auto simp: InitV8_def log_event_def RunScript_ok [OF assms(1)] UTF16StringToV8String_def)
qed

lemma InitV8_scripts_ok:
  assumes "\<not> script_fails v8 (ASCIILiteralToV8String v8 utility) (Context_New v8)"
    and "\<not> script_fails v8 pac_script
           (fst (Script_Run v8 (ASCIILiteralToV8String v8 utility) (Context_New v8)))"
  shows "InitV8 v8 utility pac_script h =
           (if entry_callable v8
                 (fst (Script_Run v8 pac_script
                    (fst (Script_Run v8 (ASCIILiteralToV8String v8 utility) (Context_New v8)))))
            then OK else ERR_PAC_SCRIPT_FAILED,
            \<lparr>v8_context = fst (Script_Run v8 pac_script
                    (fst (Script_Run v8 (ASCIILiteralToV8String v8 utility) (Context_New v8))))\<rparr>,
            h\<lparr>v8_events := v8_events h @
                [Locker, NewContext, Compile kPacUtilityResourceName, Run kPacUtilityResourceName,
                 Compile kPacResourceName, Run kPacResourceName, GetGlobal]\<rparr>)"
  using assms(2)
  by (simp add: InitV8_def RunScript_ok [OF assms(1)] RunScript_ok UTF16StringToV8String_def
      GetFindProxyForURL_def entry_callable_def log_event_def)

lemma InitV8_OK_iff:
  "fst (InitV8 v8 utility pac_script h) = OK \<longleftrightarrow>
     \<not> script_fails v8 (ASCIILiteralToV8String v8 utility) (Context_New v8) \<and>
     \<not> script_fails v8 pac_script
           (fst (Script_Run v8 (ASCIILiteralToV8String v8 utility) (Context_New v8))) \<and>
     entry_callable v8
       (fst (Script_Run v8 pac_script
          (fst (Script_Run v8 (ASCIILiteralToV8String v8 utility) (Context_New v8)))))"
proof (cases "script_fails v8 (ASCIILiteralToV8String v8 utility) (Context_New v8)")
  case True
  from InitV8_utility_fails [OF True, of pac_script h] True show ?thesis by auto
next
  case False
  show ?thesis
  proof (cases "script_fails v8 pac_script
           (fst (Script_Run v8 (ASCIILiteralToV8String v8 utility) (Context_New v8)))")
    case True
    from InitV8_user_fails [OF False True, of h] True show ?thesis by auto
  next
    case nf: False
    show ?thesis
      using False nf by (simp add: InitV8_scripts_ok [OF False nf])
  qed
qed

lemma InitV8_OK_context:
  assumes "fst (InitV8 v8 utility pac_script h) = OK"
  shows "v8_context (fst (snd (InitV8 v8 utility pac_script h))) =
           fst (Script_Run v8 pac_script
             (fst (Script_Run v8 (ASCIILiteralToV8String v8 utility) (Context_New v8))))"
  using assms InitV8_OK_iff [of v8 utility pac_script h]
  by (simp add: InitV8_scripts_ok)

lemma InitV8_events_first:
  "\<exists>rest. v8_events (snd (snd (InitV8 v8 utility pac_script h))) =
      v8_events h @ [Locker, NewContext, Compile kPacUtilityResourceName] @ rest"
proof (cases "script_fails v8 (ASCIILiteralToV8String v8 utility) (Context_New v8)")
  case True
  from InitV8_utility_fails [OF True, of pac_script h] show ?thesis by auto
next
  case False
  show ?thesis
  proof (cases "script_fails v8 pac_script
           (fst (Script_Run v8 (ASCIILiteralToV8String v8 utility) (Context_New v8)))")
    case True
    from InitV8_user_fails [OF False True, of h] show ?thesis by auto
  next
    case nf: False
    show ?thesis
      by (simp add: InitV8_scripts_ok [OF False nf])
  qed
qed


lemma InitV8_status:
  "fst (InitV8 v8 utility pac_script h) =
     (if \<not> script_fails v8 (ASCIILiteralToV8String v8 utility) (Context_New v8) \<and>
         \<not> script_fails v8 pac_script
             (fst (Script_Run v8 (ASCIILiteralToV8String v8 utility) (Context_New v8))) \<and>
         entry_callable v8
           (fst (Script_Run v8 pac_script
              (fst (Script_Run v8 (ASCIILiteralToV8String v8 utility) (Context_New v8)))))
      then OK else ERR_PAC_SCRIPT_FAILED)"
proof (cases "script_fails v8 (ASCIILiteralToV8String v8 utility) (Context_New v8)")
  case True
  from InitV8_utility_fails [OF True, of pac_script h] True show ?thesis by auto
next
  case False
  show ?thesis
  proof (cases "script_fails v8 pac_script
           (fst (Script_Run v8 (ASCIILiteralToV8String v8 utility) (Context_New v8)))")
    case True
    from InitV8_user_fails [OF False True, of h] True show ?thesis by auto
  next
    case nf: False
    show ?thesis
      using False nf by (simp add: InitV8_scripts_ok [OF False nf])
  qed
qed

lemma InitV8_utility_fails_no_user_compile:
  assumes "script_fails v8 (ASCIILiteralToV8String v8 utility) (Context_New v8)"
  shows "Compile kPacResourceName \<notin>
           set (drop (length (v8_events h)) (v8_events (snd (snd (InitV8 v8 utility pac_script h)))))"
  using InitV8_utility_fails [OF assms, of pac_script h]
  by (auto simp: kPacResourceName_def kPacUtilityResourceName_def)

lemma InitV8_status_indep:
  "fst (InitV8 v8 utility pac_script h) = fst (InitV8 v8 utility pac_script h')"
  by (simp add: InitV8_status)

lemma InitV8_context_indep:
  assumes "fst (InitV8 v8 utility pac_script h) = OK"
  shows "fst (snd (InitV8 v8 utility pac_script h)) = fst (snd (InitV8 v8 utility pac_script h'))"
proof -
  from assms have "fst (InitV8 v8 utility pac_script h') = OK"
    by (simp add: InitV8_status)
  from InitV8_OK_context [OF assms] InitV8_OK_context [OF this] show ?thesis
    by simp
qed

lemma SetPacScript_empty:
  "SetPacScript v8 utility r [] =
     (ERR_PAC_SCRIPT_FAILED,
      r\<lparr>context_ptr := None,
        host_state := (case context_ptr r of None \<Rightarrow> host_state r
                       | Some ctx \<Rightarrow> Context_destroy ctx (host_state r))\<rparr>)"
  by (simp add: SetPacScript_def Let_def)

lemma SetPacScript_nonempty:
  assumes "script_data \<noteq> []"
  shows "fst (SetPacScript v8 utility r script_data) =
           fst (InitV8 v8 utility script_data
             (log_event NewIsolate
               (case context_ptr r of None \<Rightarrow> host_state r
                | Some ctx \<Rightarrow> Context_destroy ctx (host_state r))))"
    and "context_ptr (snd (SetPacScript v8 utility r script_data)) =
           (if fst (InitV8 v8 utility script_data
                 (log_event NewIsolate
                   (case context_ptr r of None \<Rightarrow> host_state r
                    | Some ctx \<Rightarrow> Context_destroy ctx (host_state r)))) \<noteq> OK
            then None
            else Some (fst (snd (InitV8 v8 utility script_data
                 (log_event NewIsolate
                   (case context_ptr r of None \<Rightarrow> host_state r
                    | Some ctx \<Rightarrow> Context_destroy ctx (host_state r)))))))"
  using assms by (simp_all add: SetPacScript_def Let_def split: prod.splits)

lemma SetPacScript_status:
  "fst (SetPacScript v8 utility r script_data) =
     (if script_data \<noteq> [] \<and>
         \<not> script_fails v8 (ASCIILiteralToV8String v8 utility) (Context_New v8) \<and>
         \<not> script_fails v8 script_data
             (fst (Script_Run v8 (ASCIILiteralToV8String v8 utility) (Context_New v8))) \<and>
         entry_callable v8
           (fst (Script_Run v8 script_data
              (fst (Script_Run v8 (ASCIILiteralToV8String v8 utility) (Context_New v8)))))
      then OK else ERR_PAC_SCRIPT_FAILED)"
  by (cases "script_data = []") (simp_all add: SetPacScript_empty SetPacScript_nonempty InitV8_status)

lemma SetPacScript_context:
  "context_ptr (snd (SetPacScript v8 utility r script_data)) =
     (if fst (SetPacScript v8 utility r script_data) = OK
      then Some \<lparr>v8_context =
             fst (Script_Run v8 script_data
               (fst (Script_Run v8 (ASCIILiteralToV8String v8 utility) (Context_New v8))))\<rparr>
      else None)"
proof (cases "script_data = []")
  case True
  then show ?thesis by (simp add: SetPacScript_empty)
next
  case False
  let ?h = "log_event NewIsolate
               (case context_ptr r of None \<Rightarrow> host_state r
                | Some ctx \<Rightarrow> Context_destroy ctx (host_state r))"
  show ?thesis
  proof (cases "fst (InitV8 v8 utility script_data ?h) = OK")
    case True
    from InitV8_OK_context [OF True]
    have "fst (snd (InitV8 v8 utility script_data ?h)) =
        \<lparr>v8_context = fst (Script_Run v8 script_data
               (fst (Script_Run v8 (ASCIILiteralToV8String v8 utility) (Context_New v8))))\<rparr>"
      by (cases "fst (snd (InitV8 v8 utility script_data ?h))") simp
    with True False show ?thesis
      by (simp add: SetPacScript_nonempty)
  next
    case nok: False
    with False show ?thesis
      by (simp add: SetPacScript_nonempty)
  qed
qed

lemma stub_V8_simps:
  "Global_Get (stub_V8 compile entry ret) g name = entry"
  "Function_Call (stub_V8 compile entry ret) f argv g = ((), Inr ret)"
  "Script_Compile (stub_V8 compile entry ret) script g = compile script"
  "Script_Run (stub_V8 compile entry ret) script g = ((), None)"
  "NewFromUtf8 (stub_V8 compile entry ret) = String16_literal"
  "Context_New (stub_V8 compile entry ret) = ()"
  by (simp_all add: stub_V8_def)

lemma stub_V8_script_fails:
  "script_fails (stub_V8 compile entry ret) script g \<longleftrightarrow> compile script \<noteq> None"
  by (simp add: script_fails_def stub_V8_simps)

lemma stub_V8_entry_callable:
  "entry_callable (stub_V8 compile entry ret) g \<longleftrightarrow> IsFunction entry"
  by (simp add: entry_callable_def stub_V8_simps)

lemma stub_V8_literal:
  "ASCIILiteralToV8String (stub_V8 compile entry ret) ''util.js'' = String16_literal ''util.js''"
  by (simp add: ASCIILiteralToV8String_def stub_V8_simps kMaxStringBytesForCopy_def)

subsection \<open>Claims about the script host\<close>

text \<open>
  Claim C1. For every call of \<^verbatim>\<open>ResolveProxy\<close> on a loaded context in which the entry
  function is found and returns a value: if the value is not a string the call fails
  and reports "did not return a string" (the spec's \<open>ReturnNotString\<close>); if it is a
  string with a code unit above 0x7F the call fails and reports "returned a non-ASCII
  string" (\<open>NonAsciiResult\<close>); if all its code units are at most 0x7F the call
  returns \<^verbatim>\<open>OK\<close> with exactly that string in \<^verbatim>\<open>*results\<close>. Both failures carry the
  code \<^verbatim>\<open>ERR_PAC_SCRIPT_FAILED\<close>.
\<close>

theorem ResolveProxy_result:
  assumes "Global_Get v8 (v8_context ctx) (ASCIILiteralToV8String v8 ''FindProxyForURL'') = JSFunction f"
    and "Function_Call v8 f [JSString url, JSString host_name] (v8_context ctx) = (g', Inr ret)"
  shows "(\<not> IsString ret \<longrightarrow>
            ResolveProxy v8 ctx url host_name results h =
              Inr (ERR_PAC_SCRIPT_FAILED, ctx\<lparr>v8_context := g'\<rparr>, results,
                   ErrorMessage (String16_literal ''FindProxyForURL() did not return a string.'')
                     (log_event Call (log_event GetGlobal (log_event Locker h))))) \<and>
         (\<forall>s. ret = JSString s \<and> (\<exists>c\<in>set s. c > 0x7F) \<longrightarrow>
            ResolveProxy v8 ctx url host_name results h =
              Inr (ERR_PAC_SCRIPT_FAILED, ctx\<lparr>v8_context := g'\<rparr>, s,
                   ErrorMessage (String16_literal ''FindProxyForURL() returned a non-ASCII string'')
                     (log_event Call (log_event GetGlobal (log_event Locker h))))) \<and>
         (\<forall>s. ret = JSString s \<and> (\<forall>c\<in>set s. c \<le> 0x7F) \<longrightarrow>
            ResolveProxy v8 ctx url host_name results h =
              Inr (OK, ctx\<lparr>v8_context := g'\<rparr>, s,
                   log_event Call (log_event GetGlobal (log_event Locker h))))"
proof (intro conjI allI impI)
  assume "\<not> IsString ret"
  with assms show "ResolveProxy v8 ctx url host_name results h =
              Inr (ERR_PAC_SCRIPT_FAILED, ctx\<lparr>v8_context := g'\<rparr>, results,
                   ErrorMessage (String16_literal ''FindProxyForURL() did not return a string.'')
                     (log_event Call (log_event GetGlobal (log_event Locker h))))"
    by (cases ret)
      (simp_all add: ResolveProxy_def GetFindProxyForURL_def UTF16StringToV8String_def)
next
  fix s
  assume "ret = JSString s \<and> (\<exists>c\<in>set s. c > 0x7F)"
  then have "ret = JSString s" and "\<not> IsStringASCII s"
    by (auto simp: IsStringASCII_iff not_le)
  with assms show "ResolveProxy v8 ctx url host_name results h =
              Inr (ERR_PAC_SCRIPT_FAILED, ctx\<lparr>v8_context := g'\<rparr>, s,
                   ErrorMessage (String16_literal ''FindProxyForURL() returned a non-ASCII string'')
                     (log_event Call (log_event GetGlobal (log_event Locker h))))"
    by (simp add: ResolveProxy_def GetFindProxyForURL_def UTF16StringToV8String_def
        V8StringToUTF16_def)
next
  fix s
  assume "ret = JSString s \<and> (\<forall>c\<in>set s. c \<le> 0x7F)"
  then have "ret = JSString s" and "IsStringASCII s"
    by (auto simp: IsStringASCII_iff)
  with assms show "ResolveProxy v8 ctx url host_name results h =
              Inr (OK, ctx\<lparr>v8_context := g'\<rparr>, s,
                   log_event Call (log_event GetGlobal (log_event Locker h)))"
    by (simp add: ResolveProxy_def GetFindProxyForURL_def UTF16StringToV8String_def
        V8StringToUTF16_def)
qed

theorem ResolveProxy_result_witness:
  "ResolveProxy (stub_V8 (\<lambda>s. None) (JSFunction 0) JSNull) \<lparr>v8_context = ()\<rparr>
     (String16_literal ''http://a/'') (String16_literal ''a'') [] no_host =
     Inr (ERR_PAC_SCRIPT_FAILED, \<lparr>v8_context = ()\<rparr>, [],
          ErrorMessage (String16_literal ''FindProxyForURL() did not return a string.'')
            (log_event Call (log_event GetGlobal (log_event Locker no_host)))) \<and>
   ResolveProxy (stub_V8 (\<lambda>s. None) (JSFunction 0) (JSString [0x50, 0xE9])) \<lparr>v8_context = ()\<rparr>
     (String16_literal ''http://a/'') (String16_literal ''a'') [] no_host =
     Inr (ERR_PAC_SCRIPT_FAILED, \<lparr>v8_context = ()\<rparr>, [0x50, 0xE9],
          ErrorMessage (String16_literal ''FindProxyForURL() returned a non-ASCII string'')
            (log_event Call (log_event GetGlobal (log_event Locker no_host)))) \<and>
   ResolveProxy (stub_V8 (\<lambda>s. None) (JSFunction 0) (JSString (String16_literal ''DIRECT'')))
     \<lparr>v8_context = ()\<rparr> (String16_literal ''http://a/'') (String16_literal ''a'') [] no_host =
     Inr (OK, \<lparr>v8_context = ()\<rparr>, String16_literal ''DIRECT'',
          log_event Call (log_event GetGlobal (log_event Locker no_host)))"
  using
    ResolveProxy_result [of "stub_V8 (\<lambda>s. None) (JSFunction 0) JSNull" "\<lparr>v8_context = ()\<rparr>" 0
      "String16_literal ''http://a/''" "String16_literal ''a''" "()" JSNull "[]" no_host]
    ResolveProxy_result [of "stub_V8 (\<lambda>s. None) (JSFunction 0) (JSString [0x50, 0xE9])"
      "\<lparr>v8_context = ()\<rparr>" 0
      "String16_literal ''http://a/''" "String16_literal ''a''" "()" "JSString [0x50, 0xE9]" "[]" no_host]
    ResolveProxy_result [of "stub_V8 (\<lambda>s. None) (JSFunction 0) (JSString (String16_literal ''DIRECT''))"
      "\<lparr>v8_context = ()\<rparr>" 0
      "String16_literal ''http://a/''" "String16_literal ''a''" "()"
      "JSString (String16_literal ''DIRECT'')" "[]" no_host]
  by (simp add: stub_V8_simps String16_literal_def)

text \<open>
  Claim C5. \<^verbatim>\<open>PurgeMemory\<close> without a loaded context should be a no-op. The code calls
  \<^verbatim>\<open>context_->PurgeMemory()\<close> with no test of \<^verbatim>\<open>context_\<close>, unlike
  \<^verbatim>\<open>GetProxyForURL\<close>, \<^verbatim>\<open>SetPacScript\<close> and the destructor: on a resolver whose
  \<^verbatim>\<open>context_\<close> is \<^verbatim>\<open>NULL\<close> the call dereferences the null pointer.
\<close>

theorem PurgeMemory_without_context_faults:
  "PurgeMemory (\<lparr>context_ptr = None, host_state = no_host\<rparr> :: unit ProxyResolverV8) =
     Inl NullPointerDereference"
  by (simp add: PurgeMemory_def)

lemma GetHostnameArgument_None_iff:
  "GetHostnameArgument args = None \<longleftrightarrow>
     args = [] \<or> (\<exists>rest. args = None # rest) \<or>
     (\<exists>v rest. args = Some v # rest \<and> \<not> IsString v) \<or>
     (\<exists>s rest. args = Some (JSString s) # rest \<and> (\<exists>c\<in>set s. c > 0x7F))"
proof (cases args)
  case Nil
  then show ?thesis by (simp add: GetHostnameArgument_def)
next
  case (Cons a rest)
  show ?thesis
  proof (cases a)
    case None
    with Cons show ?thesis by (simp add: GetHostnameArgument_def)
  next
    case (Some v)
    with Cons show ?thesis
      by (cases v) (auto simp: GetHostnameArgument_def V8StringToUTF16_def IsStringASCII_iff not_le)
  qed
qed

lemma GetHostnameArgument_Some:
  "\<forall>c\<in>set s. c \<le> 0x7F \<Longrightarrow>
     GetHostnameArgument (Some (JSString s) # rest) = Some (UTF16ToASCII s)"
  by (simp add: GetHostnameArgument_def V8StringToUTF16_def IsStringASCII_iff)

text \<open>
  Claim C6. For every call of the \<^verbatim>\<open>dnsResolve\<close> binding: if the first argument is
  missing, is an empty handle, is not a string, or is a string with a code unit above
  0x7F, the callback sets no return value; if it is an ASCII string and the lookup
  fails, the return value is null; if the lookup succeeds, it is the collaborator's
  string as an engine string. The callback never leaves an exception pending.
\<close>

theorem DnsResolveCallback_result:
  "(args = [] \<or> (\<exists>rest. args = None # rest) \<or>
    (\<exists>v rest. args = Some v # rest \<and> \<not> IsString v) \<or>
    (\<exists>s rest. args = Some (JSString s) # rest \<and> (\<exists>c\<in>set s. c > 0x7F)) \<longrightarrow>
      DnsResolveCallback v8 js_bindings args = ReturnValueUnset) \<and>
   (\<forall>s rest. args = Some (JSString s) # rest \<and> (\<forall>c\<in>set s. c \<le> 0x7F) \<longrightarrow>
      (\<not> fst (DnsResolve js_bindings (UTF16ToASCII s)) \<longrightarrow>
         DnsResolveCallback v8 js_bindings args = ReturnValue JSNull) \<and>
      (fst (DnsResolve js_bindings (UTF16ToASCII s)) \<longrightarrow>
         DnsResolveCallback v8 js_bindings args =
           ReturnValue (JSString (ASCIIStringToV8String v8
             (snd (DnsResolve js_bindings (UTF16ToASCII s))))))) \<and>
   DnsResolveCallback v8 js_bindings args \<noteq> ExceptionPending"
proof (intro conjI allI impI)
  assume "args = [] \<or> (\<exists>rest. args = None # rest) \<or>
    (\<exists>v rest. args = Some v # rest \<and> \<not> IsString v) \<or>
    (\<exists>s rest. args = Some (JSString s) # rest \<and> (\<exists>c\<in>set s. c > 0x7F))"
  then have "GetHostnameArgument args = None"
    by (simp only: GetHostnameArgument_None_iff)
  then show "DnsResolveCallback v8 js_bindings args = ReturnValueUnset"
    by (simp add: DnsResolveCallback_def)
next
  fix s rest
  assume a: "args = Some (JSString s) # rest \<and> (\<forall>c\<in>set s. c \<le> 0x7F)"
  then have g: "GetHostnameArgument args = Some (UTF16ToASCII s)"
    by (simp add: GetHostnameArgument_Some)
  {
    assume "\<not> fst (DnsResolve js_bindings (UTF16ToASCII s))"
    with g show "DnsResolveCallback v8 js_bindings args = ReturnValue JSNull"
      by (cases "DnsResolve js_bindings (UTF16ToASCII s)") (simp add: DnsResolveCallback_def)
  next
    assume "fst (DnsResolve js_bindings (UTF16ToASCII s))"
    with g show "DnsResolveCallback v8 js_bindings args =
           ReturnValue (JSString (ASCIIStringToV8String v8
             (snd (DnsResolve js_bindings (UTF16ToASCII s)))))"
      by (cases "DnsResolve js_bindings (UTF16ToASCII s)") (simp add: DnsResolveCallback_def)
  }
next
  show "DnsResolveCallback v8 js_bindings args \<noteq> ExceptionPending"
    by (simp add: DnsResolveCallback_def split: option.split prod.split)
qed

theorem DnsResolveCallback_result_witness:
  "DnsResolveCallback (stub_V8 (\<lambda>s. None) JSUndefined JSNull) stub_bindings [] = ReturnValueUnset \<and>
   DnsResolveCallback (stub_V8 (\<lambda>s. None) JSUndefined JSNull) stub_bindings [Some (JSNumber 7)] =
     ReturnValueUnset \<and>
   DnsResolveCallback (stub_V8 (\<lambda>s. None) JSUndefined JSNull) stub_bindings
     [Some (JSString [0x61, 0xE9])] = ReturnValueUnset \<and>
   DnsResolveCallback (stub_V8 (\<lambda>s. None) JSUndefined JSNull) stub_bindings
     [Some (JSString (String16_literal ''b.test''))] = ReturnValue JSNull \<and>
   DnsResolveCallback (stub_V8 (\<lambda>s. None) JSUndefined JSNull) stub_bindings
     [Some (JSString (String16_literal ''a.test''))] =
     ReturnValue (JSString (String16_literal ''1.2.3.4''))"
proof -
  have a: "UTF16ToASCII (String16_literal ''a.test'') = ''a.test''"
    and b: "UTF16ToASCII (String16_literal ''b.test'') = ''b.test''"
    by code_simp+
  have c: "\<forall>c\<in>set (String16_literal ''a.test''). c \<le> 0x7F"
    "\<forall>c\<in>set (String16_literal ''b.test''). c \<le> 0x7F"
    by (simp_all add: String16_literal_def)
  show ?thesis
    using
      DnsResolveCallback_result [of "[]" "stub_V8 (\<lambda>s. None) JSUndefined JSNull" stub_bindings]
      DnsResolveCallback_result [of "[Some (JSNumber 7)]" "stub_V8 (\<lambda>s. None) JSUndefined JSNull"
        stub_bindings]
      DnsResolveCallback_result [of "[Some (JSString [0x61, 0xE9])]"
        "stub_V8 (\<lambda>s. None) JSUndefined JSNull" stub_bindings]
      DnsResolveCallback_result [of "[Some (JSString (String16_literal ''b.test''))]"
        "stub_V8 (\<lambda>s. None) JSUndefined JSNull" stub_bindings]
      DnsResolveCallback_result [of "[Some (JSString (String16_literal ''a.test''))]"
        "stub_V8 (\<lambda>s. None) JSUndefined JSNull" stub_bindings]
    by (simp add: a b c stub_bindings_def ASCIIStringToV8String_def stub_V8_simps)
qed

text \<open>
  Claim C7. For every \<^verbatim>\<open>SetPacScript\<close> call and every prior state: when the call does
  not return \<^verbatim>\<open>OK\<close> the resolver has no context afterwards; when it returns
  \<^verbatim>\<open>OK\<close> the context is one whose entry function is callable; an empty script, a
  script (utility or user) that fails to compile or run, and a missing or non-callable
  entry function each give \<^verbatim>\<open>ERR_PAC_SCRIPT_FAILED\<close> and no context; and both the code
  returned and the context left are the same as if there had been no prior context, so
  nothing of an earlier context survives.
\<close>

theorem SetPacScript_result:
  "(fst (SetPacScript v8 utility r script_data) \<noteq> OK \<longrightarrow>
      context_ptr (snd (SetPacScript v8 utility r script_data)) = None) \<and>
   (fst (SetPacScript v8 utility r script_data) = OK \<longrightarrow>
      (\<exists>ctx. context_ptr (snd (SetPacScript v8 utility r script_data)) = Some ctx \<and>
             entry_callable v8 (v8_context ctx))) \<and>
   (script_data = [] \<or>
    script_fails v8 (ASCIILiteralToV8String v8 utility) (Context_New v8) \<or>
    script_fails v8 script_data
      (fst (Script_Run v8 (ASCIILiteralToV8String v8 utility) (Context_New v8))) \<or>
    \<not> entry_callable v8
        (fst (Script_Run v8 script_data
           (fst (Script_Run v8 (ASCIILiteralToV8String v8 utility) (Context_New v8))))) \<longrightarrow>
      fst (SetPacScript v8 utility r script_data) = ERR_PAC_SCRIPT_FAILED \<and>
      context_ptr (snd (SetPacScript v8 utility r script_data)) = None) \<and>
   fst (SetPacScript v8 utility r script_data) =
     fst (SetPacScript v8 utility (r\<lparr>context_ptr := None\<rparr>) script_data) \<and>
   context_ptr (snd (SetPacScript v8 utility r script_data)) =
     context_ptr (snd (SetPacScript v8 utility (r\<lparr>context_ptr := None\<rparr>) script_data))"
  by (auto simp: SetPacScript_context SetPacScript_status)


theorem SetPacScript_result_witness:
  "context_ptr (snd (SetPacScript (stub_V8 (\<lambda>s. None) JSUndefined JSNull) ''util.js''
      \<lparr>context_ptr = Some \<lparr>v8_context = ()\<rparr>, host_state = no_host\<rparr>
      (String16_literal ''pac''))) = None \<and>
   context_ptr (snd (SetPacScript (stub_V8 (\<lambda>s. None) (JSFunction 0) JSNull) ''util.js''
      \<lparr>context_ptr = Some \<lparr>v8_context = ()\<rparr>, host_state = no_host\<rparr>
      [])) = None \<and>
   context_ptr (snd (SetPacScript (stub_V8 (\<lambda>s. None) (JSFunction 0) JSNull) ''util.js''
      \<lparr>context_ptr = None, host_state = no_host\<rparr>
      (String16_literal ''pac''))) \<noteq> None"
proof (intro conjI)
  have "fst (SetPacScript (stub_V8 (\<lambda>s. None) JSUndefined JSNull) ''util.js''
      \<lparr>context_ptr = Some \<lparr>v8_context = ()\<rparr>, host_state = no_host\<rparr>
      (String16_literal ''pac'')) = ERR_PAC_SCRIPT_FAILED \<and>
    context_ptr (snd (SetPacScript (stub_V8 (\<lambda>s. None) JSUndefined JSNull) ''util.js''
      \<lparr>context_ptr = Some \<lparr>v8_context = ()\<rparr>, host_state = no_host\<rparr>
      (String16_literal ''pac''))) = None"
    by (rule SetPacScript_result [THEN conjunct2, THEN conjunct2, THEN conjunct1, rule_format])
      (simp add: stub_V8_entry_callable)
  then show "context_ptr (snd (SetPacScript (stub_V8 (\<lambda>s. None) JSUndefined JSNull) ''util.js''
      \<lparr>context_ptr = Some \<lparr>v8_context = ()\<rparr>, host_state = no_host\<rparr>
      (String16_literal ''pac''))) = None"
    by (rule conjunct2)
  have "fst (SetPacScript (stub_V8 (\<lambda>s. None) (JSFunction 0) JSNull) ''util.js''
      \<lparr>context_ptr = Some \<lparr>v8_context = ()\<rparr>, host_state = no_host\<rparr> []) =
      ERR_PAC_SCRIPT_FAILED \<and>
    context_ptr (snd (SetPacScript (stub_V8 (\<lambda>s. None) (JSFunction 0) JSNull) ''util.js''
      \<lparr>context_ptr = Some \<lparr>v8_context = ()\<rparr>, host_state = no_host\<rparr> [])) = None"
    by (rule SetPacScript_result [THEN conjunct2, THEN conjunct2, THEN conjunct1, rule_format])
      simp
  then show "context_ptr (snd (SetPacScript (stub_V8 (\<lambda>s. None) (JSFunction 0) JSNull) ''util.js''
      \<lparr>context_ptr = Some \<lparr>v8_context = ()\<rparr>, host_state = no_host\<rparr>
      [])) = None"
    by (rule conjunct2)
  have "\<exists>ctx. context_ptr (snd (SetPacScript (stub_V8 (\<lambda>s. None) (JSFunction 0) JSNull) ''util.js''
      \<lparr>context_ptr = None, host_state = no_host\<rparr> (String16_literal ''pac''))) = Some ctx \<and>
      entry_callable (stub_V8 (\<lambda>s. None) (JSFunction 0) JSNull) (v8_context ctx)"
    by (rule SetPacScript_result [THEN conjunct2, THEN conjunct1, rule_format])
      (simp add: SetPacScript_status stub_V8_script_fails stub_V8_entry_callable
        String16_literal_def)
  then show "context_ptr (snd (SetPacScript (stub_V8 (\<lambda>s. None) (JSFunction 0) JSNull) ''util.js''
      \<lparr>context_ptr = None, host_state = no_host\<rparr>
      (String16_literal ''pac''))) \<noteq> None"
    by (elim exE conjE) simp
qed

text \<open>
  Claim C8. For every \<^verbatim>\<open>InitV8\<close> call: the first script operation is always the
  compilation of the utility library; if the utility library fails to compile or run
  the call fails and the user script is not compiled; if the user script, run in the
  scope the utility library left, fails to compile or run the call fails; if after
  both the global \<^verbatim>\<open>FindProxyForURL\<close> is not a function the call fails; otherwise it
  returns \<^verbatim>\<open>OK\<close> with the scope left by the user script; and it returns \<^verbatim>\<open>OK\<close> only
  when the entry function is callable. Each failure carries the code
  \<^verbatim>\<open>ERR_PAC_SCRIPT_FAILED\<close> (the spec's \<open>CompileFailure\<close> and \<open>EntryMissing\<close>).
\<close>

theorem InitV8_result:
  "(\<exists>rest. v8_events (snd (snd (InitV8 v8 utility pac_script h))) =
       v8_events h @ [Locker, NewContext, Compile kPacUtilityResourceName] @ rest) \<and>
   (script_fails v8 (ASCIILiteralToV8String v8 utility) (Context_New v8) \<longrightarrow>
      fst (InitV8 v8 utility pac_script h) = ERR_PAC_SCRIPT_FAILED \<and>
      Compile kPacResourceName \<notin>
        set (drop (length (v8_events h)) (v8_events (snd (snd (InitV8 v8 utility pac_script h)))))) \<and>
   (script_fails v8 pac_script
      (fst (Script_Run v8 (ASCIILiteralToV8String v8 utility) (Context_New v8))) \<longrightarrow>
      fst (InitV8 v8 utility pac_script h) = ERR_PAC_SCRIPT_FAILED) \<and>
   (\<not> entry_callable v8
       (fst (Script_Run v8 pac_script
          (fst (Script_Run v8 (ASCIILiteralToV8String v8 utility) (Context_New v8))))) \<longrightarrow>
      fst (InitV8 v8 utility pac_script h) = ERR_PAC_SCRIPT_FAILED) \<and>
   (\<not> script_fails v8 (ASCIILiteralToV8String v8 utility) (Context_New v8) \<and>
    \<not> script_fails v8 pac_script
       (fst (Script_Run v8 (ASCIILiteralToV8String v8 utility) (Context_New v8))) \<and>
    entry_callable v8
       (fst (Script_Run v8 pac_script
          (fst (Script_Run v8 (ASCIILiteralToV8String v8 utility) (Context_New v8))))) \<longrightarrow>
      fst (InitV8 v8 utility pac_script h) = OK \<and>
      v8_context (fst (snd (InitV8 v8 utility pac_script h))) =
        fst (Script_Run v8 pac_script
          (fst (Script_Run v8 (ASCIILiteralToV8String v8 utility) (Context_New v8))))) \<and>
   (fst (InitV8 v8 utility pac_script h) = OK \<longrightarrow>
      entry_callable v8 (v8_context (fst (snd (InitV8 v8 utility pac_script h)))))"
proof (intro conjI impI)
  show "\<exists>rest. v8_events (snd (snd (InitV8 v8 utility pac_script h))) =
       v8_events h @ [Locker, NewContext, Compile kPacUtilityResourceName] @ rest"
    by (rule InitV8_events_first)
next
  assume "script_fails v8 (ASCIILiteralToV8String v8 utility) (Context_New v8)"
  then show "fst (InitV8 v8 utility pac_script h) = ERR_PAC_SCRIPT_FAILED"
    by (simp add: InitV8_status)
next
  assume "script_fails v8 (ASCIILiteralToV8String v8 utility) (Context_New v8)"
  then show "Compile kPacResourceName \<notin>
        set (drop (length (v8_events h)) (v8_events (snd (snd (InitV8 v8 utility pac_script h)))))"
    by (rule InitV8_utility_fails_no_user_compile)
next
  assume "script_fails v8 pac_script
      (fst (Script_Run v8 (ASCIILiteralToV8String v8 utility) (Context_New v8)))"
  then show "fst (InitV8 v8 utility pac_script h) = ERR_PAC_SCRIPT_FAILED"
    by (simp add: InitV8_status)
next
  assume "\<not> entry_callable v8
       (fst (Script_Run v8 pac_script
          (fst (Script_Run v8 (ASCIILiteralToV8String v8 utility) (Context_New v8)))))"
  then show "fst (InitV8 v8 utility pac_script h) = ERR_PAC_SCRIPT_FAILED"
    by (simp add: InitV8_status)
next
  assume "\<not> script_fails v8 (ASCIILiteralToV8String v8 utility) (Context_New v8) \<and>
    \<not> script_fails v8 pac_script
       (fst (Script_Run v8 (ASCIILiteralToV8String v8 utility) (Context_New v8))) \<and>
    entry_callable v8
       (fst (Script_Run v8 pac_script
          (fst (Script_Run v8 (ASCIILiteralToV8String v8 utility) (Context_New v8)))))"
  then show ok: "fst (InitV8 v8 utility pac_script h) = OK"
    by (simp add: InitV8_status)
  then show "v8_context (fst (snd (InitV8 v8 utility pac_script h))) =
        fst (Script_Run v8 pac_script
          (fst (Script_Run v8 (ASCIILiteralToV8String v8 utility) (Context_New v8))))"
    by (rule InitV8_OK_context)
next
  assume ok: "fst (InitV8 v8 utility pac_script h) = OK"
  then have "entry_callable v8
       (fst (Script_Run v8 pac_script
          (fst (Script_Run v8 (ASCIILiteralToV8String v8 utility) (Context_New v8)))))"
    by (simp add: InitV8_OK_iff)
  with InitV8_OK_context [OF ok]
  show "entry_callable v8 (v8_context (fst (snd (InitV8 v8 utility pac_script h))))"
    by simp
qed

theorem InitV8_result_witness:
  "fst (InitV8 (stub_V8 (rejects (String16_literal ''util.js'')) (JSFunction 0) JSNull)
          ''util.js'' (String16_literal ''pac'') no_host) = ERR_PAC_SCRIPT_FAILED \<and>
   fst (InitV8 (stub_V8 (rejects (String16_literal ''pac'')) (JSFunction 0) JSNull)
          ''util.js'' (String16_literal ''pac'') no_host) = ERR_PAC_SCRIPT_FAILED \<and>
   fst (InitV8 (stub_V8 (\<lambda>s. None) JSUndefined JSNull)
          ''util.js'' (String16_literal ''pac'') no_host) = ERR_PAC_SCRIPT_FAILED \<and>
   fst (InitV8 (stub_V8 (\<lambda>s. None) (JSFunction 0) JSNull)
          ''util.js'' (String16_literal ''pac'') no_host) = OK"
proof (intro conjI)
  have ne: "String16_literal ''pac'' \<noteq> String16_literal ''util.js''"
    by (simp add: String16_literal_def)
  have "script_fails (stub_V8 (rejects (String16_literal ''util.js'')) (JSFunction 0) JSNull)
      (ASCIILiteralToV8String (stub_V8 (rejects (String16_literal ''util.js'')) (JSFunction 0) JSNull)
        ''util.js'')
      (Context_New (stub_V8 (rejects (String16_literal ''util.js'')) (JSFunction 0) JSNull))"
    by (simp add: stub_V8_script_fails stub_V8_literal rejects_def)
  with InitV8_result [of "stub_V8 (rejects (String16_literal ''util.js'')) (JSFunction 0) JSNull"
        "''util.js''" "String16_literal ''pac''" no_host]
  show "fst (InitV8 (stub_V8 (rejects (String16_literal ''util.js'')) (JSFunction 0) JSNull)
          ''util.js'' (String16_literal ''pac'') no_host) = ERR_PAC_SCRIPT_FAILED"
    by blast
  have "script_fails (stub_V8 (rejects (String16_literal ''pac'')) (JSFunction 0) JSNull)
      (String16_literal ''pac'')
      (fst (Script_Run (stub_V8 (rejects (String16_literal ''pac'')) (JSFunction 0) JSNull)
        (ASCIILiteralToV8String (stub_V8 (rejects (String16_literal ''pac'')) (JSFunction 0) JSNull)
           ''util.js'')
        (Context_New (stub_V8 (rejects (String16_literal ''pac'')) (JSFunction 0) JSNull))))"
    by (simp add: stub_V8_script_fails rejects_def)
  with InitV8_result [of "stub_V8 (rejects (String16_literal ''pac'')) (JSFunction 0) JSNull"
        "''util.js''" "String16_literal ''pac''" no_host]
  show "fst (InitV8 (stub_V8 (rejects (String16_literal ''pac'')) (JSFunction 0) JSNull)
          ''util.js'' (String16_literal ''pac'') no_host) = ERR_PAC_SCRIPT_FAILED"
    by blast
  have "\<not> entry_callable (stub_V8 (\<lambda>s. None) JSUndefined JSNull)
      (fst (Script_Run (stub_V8 (\<lambda>s. None) JSUndefined JSNull) (String16_literal ''pac'')
        (fst (Script_Run (stub_V8 (\<lambda>s. None) JSUndefined JSNull)
          (ASCIILiteralToV8String (stub_V8 (\<lambda>s. None) JSUndefined JSNull) ''util.js'')
          (Context_New (stub_V8 (\<lambda>s. None) JSUndefined JSNull))))))"
    by (simp add: stub_V8_entry_callable)
  with InitV8_result [of "stub_V8 (\<lambda>s. None) JSUndefined JSNull"
        "''util.js''" "String16_literal ''pac''" no_host]
  show "fst (InitV8 (stub_V8 (\<lambda>s. None) JSUndefined JSNull)
          ''util.js'' (String16_literal ''pac'') no_host) = ERR_PAC_SCRIPT_FAILED"
    by blast
  have "\<not> script_fails (stub_V8 (\<lambda>s. None) (JSFunction 0) JSNull)
      (ASCIILiteralToV8String (stub_V8 (\<lambda>s. None) (JSFunction 0) JSNull) ''util.js'')
      (Context_New (stub_V8 (\<lambda>s. None) (JSFunction 0) JSNull))"
    "\<not> script_fails (stub_V8 (\<lambda>s. None) (JSFunction 0) JSNull) (String16_literal ''pac'')
      (fst (Script_Run (stub_V8 (\<lambda>s. None) (JSFunction 0) JSNull)
        (ASCIILiteralToV8String (stub_V8 (\<lambda>s. None) (JSFunction 0) JSNull) ''util.js'')
        (Context_New (stub_V8 (\<lambda>s. None) (JSFunction 0) JSNull))))"
    "entry_callable (stub_V8 (\<lambda>s. None) (JSFunction 0) JSNull)
      (fst (Script_Run (stub_V8 (\<lambda>s. None) (JSFunction 0) JSNull) (String16_literal ''pac'')
        (fst (Script_Run (stub_V8 (\<lambda>s. None) (JSFunction 0) JSNull)
          (ASCIILiteralToV8String (stub_V8 (\<lambda>s. None) (JSFunction 0) JSNull) ''util.js'')
          (Context_New (stub_V8 (\<lambda>s. None) (JSFunction 0) JSNull))))))"
    by (simp_all add: stub_V8_script_fails stub_V8_entry_callable)
  with InitV8_result [of "stub_V8 (\<lambda>s. None) (JSFunction 0) JSNull"
        "''util.js''" "String16_literal ''pac''" no_host]
  show "fst (InitV8 (stub_V8 (\<lambda>s. None) (JSFunction 0) JSNull)
          ''util.js'' (String16_literal ''pac'') no_host) = OK"
    by blast
qed

text \<open>
  Claim C9. For every url and host, \<^verbatim>\<open>GetProxyForURL\<close> on a resolver without a
  context (before any successful \<^verbatim>\<open>SetPacScript\<close>) returns \<^verbatim>\<open>ERR_FAILED\<close> (the
  spec's \<open>NotInitialized\<close>) and leaves the resolver, with its record of engine
  operations and listener messages, and \<^verbatim>\<open>*results\<close> unchanged.
\<close>

theorem GetProxyForURL_NotInitialized:
  "context_ptr r = None \<Longrightarrow>
     GetProxyForURL v8 r spec host_name results = Inr (ERR_FAILED, r, results)"
  by (simp add: GetProxyForURL_def)

theorem GetProxyForURL_NotInitialized_witness:
  "context_ptr \<lparr>context_ptr = None, host_state = no_host\<rparr> = None \<and>
   GetProxyForURL (stub_V8 (\<lambda>s. None) (JSFunction 0) JSNull)
     \<lparr>context_ptr = None, host_state = no_host\<rparr>
     (String16_literal ''http://a/'') (String16_literal ''a'') [] =
   Inr (ERR_FAILED, \<lparr>context_ptr = None, host_state = no_host\<rparr>, [])"
  using GetProxyForURL_NotInitialized
    [of "\<lparr>context_ptr = None, host_state = no_host\<rparr>"
        "stub_V8 (\<lambda>s. None) (JSFunction 0) JSNull"
        "String16_literal ''http://a/''" "String16_literal ''a''" "[]"]
  by simp

end
